theory Spec2Isabelle
  imports Main
begin

section \<open>Strings\<close>

text \<open>
  JavaScript strings are modelled as Isabelle strings. A URL's path is ASCII (the URL
  parser percent-encodes everything else), so one \<^typ>\<open>char\<close> is one code unit there;
  beyond ASCII a string stands for its UTF-8 bytes, which is what percent-decoding
  produces. Route patterns are taken to be ASCII.
\<close>

abbreviation bslash :: char where
  "bslash \<equiv> CHR 0x5C"

definition code :: "char \<Rightarrow> nat" where
  "code c = of_char c"

definition alnum :: "char \<Rightarrow> bool" where
  "alnum c \<longleftrightarrow>
     c \<in> set (''ABCDEFGHIJKLMNOPQRSTUVWXYZ'' @ ''abcdefghijklmnopqrstuvwxyz'' @ ''0123456789_'')"

section \<open>Route matcher\<close>

subsection \<open>The regular expressions of the host\<close>

text \<open>
  \<open>new RegExp(source)\<close> and \<open>String.prototype.match\<close> belong to the JavaScript runtime.
  They are modelled for the fragment that route compilation works in: literal
  characters, identity escapes, \<open>.\<close>, character classes with ranges and negation,
  capturing groups, the greedy quantifiers \<open>*\<close> and \<open>+\<close> on a one-character atom, and
  the assertions \<open>^\<close> and \<open>$\<close>. A compiled expression is a flat list of items; a group
  is a pair of markers carrying the group's number. \<open>Unsupported\<close> marks syntax outside
  the fragment (alternation, \<open>?\<close>, braces, quantified groups, letter escapes), whose
  behaviour is not modelled; \<open>SyntaxError\<close> is the constructor's exception.
\<close>

datatype cset = CSet bool "(char \<times> char) list"

datatype item = One cset | Star cset | Plus cset | Open nat | Close nat | Bol | Eol

type_synonym regex = "item list"

datatype rx_error = SyntaxError | Unsupported

definition in_cset :: "cset \<Rightarrow> char \<Rightarrow> bool" where
  "in_cset cs c =
     (case cs of CSet neg rs \<Rightarrow>
        (list_ex (\<lambda>(lo, hi). code lo \<le> code c \<and> code c \<le> code hi) rs) \<noteq> neg)"

definition lit :: "char \<Rightarrow> cset" where
  "lit c = CSet False [(c, c)]"

definition dot :: cset where
  "dot = CSet True [(CHR 0x0A, CHR 0x0A), (CHR 0x0D, CHR 0x0D)]"

fun class_atom :: "string \<Rightarrow> rx_error + (char \<times> string)" where
  "class_atom [] = Inl SyntaxError"
| "class_atom [c] = (if c = bslash then Inl SyntaxError else Inr (c, []))"
| "class_atom (c # d # cs) =
     (if c = bslash then (if alnum d then Inl Unsupported else Inr (d, cs))
      else Inr (c, d # cs))"

lemma class_atom_shorter: "class_atom s = Inr (a, r) \<Longrightarrow> length r < length s"
  by (induction s rule: class_atom.induct) (auto split: if_splits)

function class_items :: "string \<Rightarrow> rx_error + ((char \<times> char) list \<times> string)" where
  "class_items s =
     (if s = [] then Inl SyntaxError
      else if hd s = CHR '']'' then Inr ([], tl s)
      else (case class_atom s of
          Inl e \<Rightarrow> Inl e
        | Inr (a, r) \<Rightarrow>
            (if r \<noteq> [] \<and> hd r = CHR ''-'' \<and> tl r \<noteq> [] \<and> hd (tl r) \<noteq> CHR '']''
             then (case class_atom (tl r) of
                 Inl e \<Rightarrow> Inl e
               | Inr (b, r') \<Rightarrow>
                   (if code a \<le> code b
                    then (case class_items r' of
                        Inl e \<Rightarrow> Inl e
                      | Inr (rs, rest) \<Rightarrow> Inr ((a, b) # rs, rest))
                    else Inl SyntaxError))
             else (case class_items r of
                 Inl e \<Rightarrow> Inl e
               | Inr (rs, rest) \<Rightarrow> Inr ((a, a) # rs, rest)))))"
  by pat_completeness auto
termination
proof (relation "measure length", goal_cases)
  case 1
  show ?case by simp
next
  case (2 s x a r y b r')
  then have "length r < length s" and "length r' < length (tl r)"
    by (auto dest: class_atom_shorter)
  then show ?case by (cases r) auto
next
  case (3 s x a r)
  then show ?case by (auto dest: class_atom_shorter)
qed

declare class_items.simps [simp del]

definition quantifier :: "string \<Rightarrow> bool" where
  "quantifier s \<longleftrightarrow> s \<noteq> [] \<and> hd s \<in> set ''*+?{''"

text \<open>The item for an atom and what follows it: \<open>*\<close>, \<open>+\<close>, or nothing.\<close>

definition quantified :: "cset \<Rightarrow> string \<Rightarrow> rx_error + (item \<times> string)" where
  "quantified a s =
     (if s = [] then Inr (One a, [])
      else if hd s \<in> set ''?{'' then Inl Unsupported
      else if hd s \<in> set ''*+''
      then (if tl s \<noteq> [] \<and> hd (tl s) = CHR ''?'' then Inl Unsupported
            else Inr (if hd s = CHR ''*'' then Star a else Plus a, tl s))
      else Inr (One a, s))"

lemma quantified_shorter: "quantified a s = Inr (i, r) \<Longrightarrow> length r \<le> length s"
  by (auto simp: quantified_def split: if_splits)

text \<open>One atom with its quantifier, from a pattern that starts with neither a
  parenthesis, an assertion nor a quantifier.\<close>

definition atom :: "string \<Rightarrow> rx_error + (item \<times> string)" where
  "atom s =
     (case s of
        [] \<Rightarrow> Inl SyntaxError
      | c # cs \<Rightarrow>
          (if c = bslash
           then (case cs of
               [] \<Rightarrow> Inl SyntaxError
             | d # ds \<Rightarrow> if alnum d then Inl Unsupported else quantified (lit d) ds)
           else if c = CHR ''.'' then quantified dot cs
           else if c = CHR ''[''
           then (case (if cs \<noteq> [] \<and> hd cs = CHR ''^'' then class_items (tl cs) else class_items cs) of
               Inl e \<Rightarrow> Inl e
             | Inr (rs, rest) \<Rightarrow> quantified (CSet (cs \<noteq> [] \<and> hd cs = CHR ''^'') rs) rest)
           else if c \<in> set ''|{'' then Inl Unsupported
           else quantified (lit c) cs))"

lemma class_items_shorter: "class_items s = Inr (rs, r) \<Longrightarrow> length r < length s"
proof (induction s arbitrary: rs r rule: class_items.induct)
  case (1 s)
  show ?case
  proof (cases "s = [] \<or> hd s = CHR '']''")
    case True
    with "1.prems" show ?thesis
      by (cases s) (auto simp: class_items.simps [of "[]"] class_items.simps [of "_ # _"] split: if_splits)
  next
    case False
    then obtain a r0 where a: "class_atom s = Inr (a, r0)"
      using "1.prems" by (auto simp: class_items.simps [of s] split: sum.splits)
    have l0: "length r0 < length s" using a by (rule class_atom_shorter)
    show ?thesis
    proof (cases "r0 \<noteq> [] \<and> hd r0 = CHR ''-'' \<and> tl r0 \<noteq> [] \<and> hd (tl r0) \<noteq> CHR '']''")
      case True
      then obtain b r1 where b: "class_atom (tl r0) = Inr (b, r1)"
        using "1.prems" False a by (auto simp: class_items.simps [of s] split: sum.splits)
      have l1: "length r1 < length r0"
        using class_atom_shorter [OF b] by (cases r0) auto
      from "1.prems" False a True b obtain rs' where ok: "code a \<le> code b"
        and rec: "class_items r1 = Inr (rs', r)"
        by (auto simp: class_items.simps [of s] split: sum.splits if_splits)
      have "length r < length r1"
        using "1.IH"(1) [OF _ _ a refl _ b refl ok rec] False True by auto
      with l0 l1 show ?thesis by simp
    next
      case nr: False
      from "1.prems" False a nr obtain rs' where rec: "class_items r0 = Inr (rs', r)"
        by (auto simp: class_items.simps [of s] split: sum.splits if_splits)
      have "length r < length r0"
        using "1.IH"(2) [OF _ _ a refl _ rec] False nr by auto
      with l0 show ?thesis by simp
    qed
  qed
qed

lemma atom_shorter: "atom s = Inr (i, r) \<Longrightarrow> length r < length s"
  by (cases s)
    (auto simp: atom_def split: if_splits list.splits sum.splits
          dest!: quantified_shorter class_items_shorter)

text \<open>
  The pattern parser. \<open>n\<close> is the number of the next group, \<open>stk\<close> the groups that are
  open. A quantifier met here has nothing to repeat.
\<close>

function rx_parse :: "string \<Rightarrow> nat \<Rightarrow> nat list \<Rightarrow> rx_error + regex" where
  "rx_parse s n stk =
     (if s = [] then (if stk = [] then Inr [] else Inl SyntaxError)
      else if hd s = CHR ''(''
      then (if tl s \<noteq> [] \<and> hd (tl s) = CHR ''?'' then Inl Unsupported
            else (case rx_parse (tl s) (Suc n) (Suc n # stk) of
                Inl e \<Rightarrow> Inl e
              | Inr is \<Rightarrow> Inr (Open (Suc n) # is)))
      else if hd s = CHR '')''
      then (case stk of
          [] \<Rightarrow> Inl SyntaxError
        | g # stk' \<Rightarrow>
            (if quantifier (tl s) then Inl Unsupported
             else (case rx_parse (tl s) n stk' of
                 Inl e \<Rightarrow> Inl e
               | Inr is \<Rightarrow> Inr (Close g # is))))
      else if hd s \<in> set ''^$''
      then (if quantifier (tl s) then Inl SyntaxError
            else (case rx_parse (tl s) n stk of
                Inl e \<Rightarrow> Inl e
              | Inr is \<Rightarrow> Inr ((if hd s = CHR ''^'' then Bol else Eol) # is)))
      else if hd s \<in> set ''*+?'' then Inl SyntaxError
      else (case atom s of
          Inl e \<Rightarrow> Inl e
        | Inr (i, r) \<Rightarrow>
            (case rx_parse r n stk of
               Inl e \<Rightarrow> Inl e
             | Inr is \<Rightarrow> Inr (i # is))))"
  by pat_completeness auto
termination
  by (relation "measure (\<lambda>(s, n, stk). length s)") (auto dest: atom_shorter)

declare rx_parse.simps [simp del]

definition RegExp :: "string \<Rightarrow> rx_error + regex" where
  "RegExp source = rx_parse source 0 []"

text \<open>
  Running a compiled expression at one start position, by backtracking: \<open>pos\<close> counts
  the characters before \<open>s\<close>, \<open>st\<close> holds the start of each open group and \<open>caps\<close> the
  closed groups (number, start, end), the latest first. A greedy quantifier first tries
  one more character and falls back to the rest of the expression.
\<close>

fun rx_run :: "regex \<Rightarrow> string \<Rightarrow> nat \<Rightarrow> (nat \<times> nat) list \<Rightarrow> (nat \<times> nat \<times> nat) list
    \<Rightarrow> (nat \<times> (nat \<times> nat \<times> nat) list) option" where
  "rx_run [] s pos st caps = Some (pos, caps)"
| "rx_run (One a # is) s pos st caps =
     (case s of
        [] \<Rightarrow> None
      | c # s' \<Rightarrow> if in_cset a c then rx_run is s' (Suc pos) st caps else None)"
| "rx_run (Star a # is) s pos st caps =
     (case s of
        [] \<Rightarrow> rx_run is s pos st caps
      | c # s' \<Rightarrow>
          if in_cset a c
          then (case rx_run (Star a # is) s' (Suc pos) st caps of
              Some r \<Rightarrow> Some r
            | None \<Rightarrow> rx_run is s pos st caps)
          else rx_run is s pos st caps)"
| "rx_run (Plus a # is) s pos st caps =
     (case s of
        [] \<Rightarrow> None
      | c # s' \<Rightarrow> if in_cset a c then rx_run (Star a # is) s' (Suc pos) st caps else None)"
| "rx_run (Open g # is) s pos st caps = rx_run is s pos ((g, pos) # st) caps"
| "rx_run (Close g # is) s pos st caps =
     (case map_of st g of
        None \<Rightarrow> None
      | Some b \<Rightarrow> rx_run is s pos st ((g, b, pos) # caps))"
| "rx_run (Bol # is) s pos st caps = (if pos = 0 then rx_run is s pos st caps else None)"
| "rx_run (Eol # is) s pos st caps = (if s = [] then rx_run is s pos st caps else None)"

text \<open>The first start position, from the left, at which the expression matches.\<close>

fun rx_search :: "regex \<Rightarrow> string \<Rightarrow> nat \<Rightarrow> (nat \<times> nat \<times> (nat \<times> nat \<times> nat) list) option" where
  "rx_search re s pos =
     (case rx_run re s pos [] [] of
        Some (e, caps) \<Rightarrow> Some (pos, e, caps)
      | None \<Rightarrow> (case s of [] \<Rightarrow> None | c # s' \<Rightarrow> rx_search re s' (Suc pos)))"

definition substring :: "string \<Rightarrow> nat \<Rightarrow> nat \<Rightarrow> string" where
  "substring s b e = take (e - b) (drop b s)"

definition groups :: "regex \<Rightarrow> nat" where
  "groups re = length (filter (\<lambda>i. case i of Open g \<Rightarrow> True | _ \<Rightarrow> False) re)"

text \<open>
  \<open>str.match(re)\<close> for an expression without the global flag: \<open>null\<close>, or the array of
  the matched text and of each group's capture (\<open>undefined\<close> is \<open>None\<close>).
\<close>

definition str_match :: "string \<Rightarrow> regex \<Rightarrow> string option list option" where
  "str_match s re =
     (case rx_search re s 0 of
        None \<Rightarrow> None
      | Some (b, e, caps) \<Rightarrow>
          Some (Some (substring s b e) #
            map (\<lambda>g. map_option (\<lambda>(b, e). substring s b e) (map_of caps g)) [1 ..< Suc (groups re)]))"

subsection \<open>Percent-decoding of the host\<close>

text \<open>
  \<open>decodeURIComponent\<close>, after the Decode operation of ECMAScript: \<open>None\<close> is its
  URIError. An escape below 128 is one character; a higher one must start a well-formed
  UTF-8 sequence of escapes.
\<close>

definition hexval :: "char \<Rightarrow> nat option" where
  "hexval c =
     (let n = code c in
      if 48 \<le> n \<and> n \<le> 57 then Some (n - 48)
      else if 65 \<le> n \<and> n \<le> 70 then Some (n - 55)
      else if 97 \<le> n \<and> n \<le> 102 then Some (n - 87)
      else None)"

definition octet :: "char \<Rightarrow> char \<Rightarrow> nat option" where
  "octet h l =
     (case hexval h of
        None \<Rightarrow> None
      | Some a \<Rightarrow> (case hexval l of None \<Rightarrow> None | Some b \<Rightarrow> Some (16 * a + b)))"

definition seq_len :: "nat \<Rightarrow> nat" where
  "seq_len b =
     (if b < 0x80 then 0 else if b < 0xC0 then 1 else if b < 0xE0 then 2
      else if b < 0xF0 then 3 else if b < 0xF8 then 4 else 5)"

fun cont_octets :: "nat \<Rightarrow> string \<Rightarrow> nat list option" where
  "cont_octets 0 s = Some []"
| "cont_octets (Suc k) s =
     (case s of
        p # h # l # r \<Rightarrow>
          (if p = CHR ''%''
           then (case octet h l of
               None \<Rightarrow> None
             | Some b \<Rightarrow> map_option ((#) b) (cont_octets k r))
           else None)
      | _ \<Rightarrow> None)"

definition cont :: "nat \<Rightarrow> bool" where
  "cont b \<longleftrightarrow> 0x80 \<le> b \<and> b \<le> 0xBF"

definition valid_utf8 :: "nat list \<Rightarrow> bool" where
  "valid_utf8 bs =
     (case bs of
        [a, b] \<Rightarrow> 0xC2 \<le> a \<and> a \<le> 0xDF \<and> cont b
      | [a, b, c] \<Rightarrow>
          cont c \<and>
          (a = 0xE0 \<and> 0xA0 \<le> b \<and> b \<le> 0xBF \<or> 0xE1 \<le> a \<and> a \<le> 0xEC \<and> cont b \<or>
           a = 0xED \<and> 0x80 \<le> b \<and> b \<le> 0x9F \<or> 0xEE \<le> a \<and> a \<le> 0xEF \<and> cont b)
      | [a, b, c, d] \<Rightarrow>
          cont c \<and> cont d \<and>
          (a = 0xF0 \<and> 0x90 \<le> b \<and> b \<le> 0xBF \<or> 0xF1 \<le> a \<and> a \<le> 0xF3 \<and> cont b \<or>
           a = 0xF4 \<and> 0x80 \<le> b \<and> b \<le> 0x8F)
      | _ \<Rightarrow> False)"

fun decodeURIComponent :: "string \<Rightarrow> string option" where
  "decodeURIComponent [] = Some []"
| "decodeURIComponent (c # cs) =
     (if c \<noteq> CHR ''%'' then map_option ((#) c) (decodeURIComponent cs)
      else (case cs of
          h # l # rest \<Rightarrow>
            (case octet h l of
               None \<Rightarrow> None
             | Some b \<Rightarrow>
                 (if seq_len b = 0 then map_option ((#) (char_of b)) (decodeURIComponent rest)
                  else if seq_len b = 1 \<or> seq_len b > 4 then None
                  else (case cont_octets (seq_len b - 1) rest of
                      None \<Rightarrow> None
                    | Some bs \<Rightarrow>
                        (if valid_utf8 (b # bs)
                         then map_option ((@) (map char_of (b # bs)))
                                (decodeURIComponent (drop (3 * (seq_len b - 1)) rest))
                         else None))))
        | _ \<Rightarrow> None))"

subsection \<open>Compiling a route pattern\<close>

text \<open>
  \<open>_pathToRegex\<close> rewrites the path three times and hands the result to \<open>RegExp\<close>.
  First \<open>path.replace(/([.+?^=!:${}()|\\])/g, "\\$1")\<close> puts a backslash before each
  character of that class.
\<close>

definition escaped :: "char \<Rightarrow> bool" where
  "escaped c \<longleftrightarrow> c \<in> set (''.+?^=!:${}()|'' @ [bslash])"

definition escape :: "string \<Rightarrow> string" where
  "escape path = concat (map (\<lambda>c. if escaped c then [bslash, c] else [c]) path)"

text \<open>Then \<open>pattern.replace(/\\\*/g, "(.*)")\<close> replaces each backslash followed by a
  star, from the left.\<close>

fun replace_star :: "string \<Rightarrow> string" where
  "replace_star (a # b # cs) =
     (if a = bslash \<and> b = CHR ''*'' then ''(.*)'' @ replace_star cs
      else a # replace_star (b # cs))"
| "replace_star cs = cs"

text \<open>
  Last \<open>pattern.replace(/:([A-Za-z0-9_]+)/g, ...)\<close> replaces each colon followed by a
  longest non-empty run of name characters by \<open>([^/]+)\<close>, and pushes the name on \<open>keys\<close>.
\<close>

function replace_params :: "string \<Rightarrow> string \<times> string list" where
  "replace_params [] = ([], [])"
| "replace_params (c # cs) =
     (if c = CHR '':'' \<and> takeWhile alnum cs \<noteq> []
      then (case replace_params (dropWhile alnum cs) of
          (p, ks) \<Rightarrow> (''([^/]+)'' @ p, takeWhile alnum cs # ks))
      else (case replace_params cs of (p, ks) \<Rightarrow> (c # p, ks)))"
  by pat_completeness auto
termination
  by (relation "measure length") (auto simp: length_dropWhile_le less_Suc_eq_le)

definition pattern_source :: "string \<Rightarrow> string \<times> string list" where
  "pattern_source path =
     (case replace_params (replace_star (escape path)) of
        (pattern, keys) \<Rightarrow> (''^'' @ pattern @ ''$'', keys))"

definition pathToRegex :: "string \<Rightarrow> rx_error + (regex \<times> string list)" where
  "pathToRegex path =
     (case pattern_source path of
        (source, keys) \<Rightarrow>
          (case RegExp source of Inl e \<Rightarrow> Inl e | Inr re \<Rightarrow> Inr (re, keys)))"

subsection \<open>Routes and matching\<close>

datatype error = Thrown string | NetworkResponseNotOk | SecurityError

datatype 'a outcome = Returns 'a | Throws error

type_synonym dict = "(string \<times> string) list"

text \<open>Setting a key in a store that keeps insertion order: \<open>Map.set\<close>,
  \<open>setAttribute\<close>, and the own properties of an object.\<close>

fun obj_set :: "string \<Rightarrow> 'v \<Rightarrow> (string \<times> 'v) list \<Rightarrow> (string \<times> 'v) list" where
  "obj_set k v [] = [(k, v)]"
| "obj_set k v ((k', v') # ps) = (if k = k' then (k, v) # ps else (k', v') # obj_set k v ps)"

text \<open>
  Assignment \<open>obj[k] = v\<close> of a string to a plain object. The key \<open>__proto__\<close> reaches
  the setter of \<open>Object.prototype\<close>, which ignores a string: no property is made.
\<close>

definition assign :: "string \<Rightarrow> string \<Rightarrow> dict \<Rightarrow> dict" where
  "assign k v obj = (if k = ''__proto__'' then obj else obj_set k v obj)"

text \<open>
  The options of a route. A loader and a renderer are asynchronous callbacks of the
  application: functions of their arguments that return a value or throw. Loader data
  is a string, falsy when empty.
\<close>

record route_options =
  loader :: "(dict \<Rightarrow> dict \<Rightarrow> string outcome) option"
  render :: "(string option \<Rightarrow> dict \<Rightarrow> dict \<Rightarrow> string outcome) option"
  template :: "string option"

record route =
  path :: string
  regex :: regex
  keys :: "string list"
  options :: route_options

text \<open>\<open>route(path, options)\<close>: the route is pushed unless \<open>RegExp\<close> throws.\<close>

definition route_add :: "string \<Rightarrow> route_options \<Rightarrow> route list \<Rightarrow> rx_error + route list" where
  "route_add p opts routes =
     (case pathToRegex p of
        Inl e \<Rightarrow> Inl e
      | Inr (re, ks) \<Rightarrow> Inr (routes @ [\<lparr>path = p, regex = re, keys = ks, options = opts\<rparr>]))"


text \<open>
  A parsed URL, as \<open>new URL(fullUrl)\<close> gives it: its path and the entries of
  \<open>new URLSearchParams(url.search)\<close>.
\<close>

record url =
  pathname :: string
  search :: "(string \<times> string) list"

definition parseQuery :: "(string \<times> string) list \<Rightarrow> dict" where
  "parseQuery entries = foldl (\<lambda>ps (k, v). assign k v ps) [] entries"

record match_result =
  m_route :: route
  m_params :: dict
  m_query :: dict
  m_pathname :: string

text \<open>\<open>m[i + 1] || ""\<close>\<close>

definition capture :: "string option list \<Rightarrow> nat \<Rightarrow> string" where
  "capture m i =
     (if Suc i < length m then (case m ! Suc i of None \<Rightarrow> [] | Some v \<Rightarrow> v) else [])"

text \<open>
  \<open>r.keys.forEach((k, i) => (params[k] = decodeURIComponent(m[i + 1] || "")))\<close>:
  \<open>None\<close> when a decoding throws.
\<close>

fun collect_params :: "string list \<Rightarrow> nat \<Rightarrow> string option list \<Rightarrow> dict \<Rightarrow> dict option" where
  "collect_params [] i m ps = Some ps"
| "collect_params (k # ks) i m ps =
     (case decodeURIComponent (capture m i) of
        None \<Rightarrow> None
      | Some v \<Rightarrow> collect_params ks (Suc i) m (assign k v ps))"

text \<open>
  The loop of \<open>_matchRoute\<close> over the routes. It runs inside \<open>try\<close>, and the handler
  returns \<open>null\<close>: an exception of \<open>decodeURIComponent\<close> ends the loop with no match.
\<close>

fun match_routes :: "route list \<Rightarrow> url \<Rightarrow> match_result option" where
  "match_routes [] u = None"
| "match_routes (r # rs) u =
     (case str_match (pathname u) (regex r) of
        None \<Rightarrow> match_routes rs u
      | Some m \<Rightarrow>
          (case collect_params (keys r) 0 m [] of
             None \<Rightarrow> None
           | Some ps \<Rightarrow>
               Some \<lparr>m_route = r, m_params = ps, m_query = parseQuery (search u),
                     m_pathname = pathname u\<rparr>))"

text \<open>\<open>_matchRoute(fullUrl)\<close>; the argument is \<open>None\<close> when \<open>new URL(fullUrl)\<close> throws.\<close>

definition matchRoute :: "route list \<Rightarrow> url option \<Rightarrow> match_result option" where
  "matchRoute routes u = (case u of None \<Rightarrow> None | Some parsed \<Rightarrow> match_routes routes parsed)"

text \<open>Route entries for the examples: options with no capability, and the entries
  that \<open>route\<close> makes for \<open>/files/*\<close> and \<open>/about\<close>.\<close>

definition no_options :: route_options where
  "no_options = \<lparr>loader = None, render = None, template = None\<rparr>"


definition about_route :: route where
  "about_route =
     \<lparr>path = ''/about'',
      regex = (case RegExp ''^/about$'' of Inr re \<Rightarrow> re | Inl e \<Rightarrow> []),
      keys = [], options = no_options\<rparr>"

subsection \<open>A pattern source as the parser reads it\<close>

text \<open>
  The parser takes a backslash together with the character after it, and any other
  character alone. A source that route compilation makes is a sequence of such tokens,
  in which no opening parenthesis stands alone. \<open>block\<close> is what a named parameter
  becomes; a sequence that contains it is \<open>doomed\<close>, and \<open>inside\<close>, \<open>closing\<close> and \<open>bad\<close>
  say how much of it lies ahead while the parser is in a character class or back outside.
\<close>

datatype tok = Esc char | Raw char

fun flatten :: "tok list \<Rightarrow> string" where
  "flatten [] = []"
| "flatten (Esc c # ts) = bslash # c # flatten ts"
| "flatten (Raw c # ts) = c # flatten ts"


definition block :: "tok list" where
  "block = [Esc CHR ''('', Raw CHR ''['', Raw CHR ''^'', Raw CHR ''/'', Raw CHR '']'', Raw CHR ''+'',
            Raw CHR '')'']"

fun doomed :: "tok list \<Rightarrow> bool" where
  "doomed [] = False"
| "doomed (t # ts) = (take 7 (t # ts) = block \<or> doomed ts)"







section \<open>Navigation controller\<close>

text \<open>
  The controller is modelled as a function on a record of what it can observe and change,
  with a trace of the effects it has on its collaborators. The hooks, loaders and
  renderers of the application are functions of their arguments; awaited calls complete
  in turn, on one timeline. The render surface is the string \<open>innerHTML\<close> of the
  container; what \<open>_patch\<close>, \<open>_runScripts\<close> and \<open>_updateActiveLinks\<close> make of it is given by
  the host record, as are URL resolution and the transport.
\<close>

record ctx =
  c_path :: string
  c_query :: dict
  c_full :: string

text \<open>What a \<open>beforeEach\<close> hook produces: \<open>false\<close>, a string, a failure, or anything else.\<close>

datatype hook_result = Continue | Abort | Redirect string | Fails error

record cache_entry =
  html :: string
  title :: string

record snapshot =
  s_html :: string
  s_title :: string
  s_url :: string

datatype event =
    BeforeHook nat ctx
  | AfterHook nat ctx
  | ErrorHook nat error
  | Loader string
  | Render string
  | Fetch string
  | Patch string
  | RunScripts
  | PushState snapshot
  | ReplaceState snapshot
  | UpdateActiveLinks
  | ScrollTo nat
  | Assign string
  | PreventDefault

datatype response = Failed error | Response bool string

record host =
  resolve :: "string \<Rightarrow> string \<Rightarrow> string option"
  parse :: "string \<Rightarrow> url option"
  origin :: "string \<Rightarrow> string"
  fetch :: "string \<Rightarrow> response"
  page_of :: "string \<Rightarrow> string \<times> string"
  patched :: "string \<Rightarrow> string \<Rightarrow> string"
  scripted :: "string \<Rightarrow> string"
  marked :: "string \<Rightarrow> string \<Rightarrow> string"
  rewritable :: "string \<Rightarrow> string \<Rightarrow> bool"

text \<open>
  \<open>resolve href base\<close> is \<open>new URL(href, base).href\<close> and \<open>parse full\<close> is \<open>new URL(full)\<close>,
  \<open>None\<close> when the constructor throws. \<open>fetch\<close> rejects (\<open>Failed\<close>) or gives \<open>res.ok\<close> and
  the text. \<open>page_of\<close> parses a document and gives the \<open>innerHTML\<close> of its container, or
  of its body, and the text of its title, empty without one. \<open>rewritable from to\<close> says
  that the History API lets a document at \<open>from\<close> take the URL \<open>to\<close>, which it does within
  one origin. \<open>Assign href\<close> is \<open>window.location.href = href\<close>, the full navigation.
\<close>

record router =
  cache :: bool
  prefetchOnHover :: bool
  routes :: "route list"
  beforeEach :: "(ctx \<Rightarrow> hook_result) list"
  afterEach :: "(ctx \<Rightarrow> unit outcome) list"
  onError :: "(error \<Rightarrow> unit outcome) list"

record world =
  location :: string
  doc_title :: string
  container :: bool
  surface :: string
  body :: string
  loading :: bool
  stateCache :: "(string \<times> cache_entry) list"
  loaderCache :: "(string \<times> string) list"
  trace :: "event list"

record nav_options =
  replace :: bool
  scrollTop :: "nat option"

definition default_options :: nav_options where
  "default_options = \<lparr>replace = False, scrollTop = Some 0\<rparr>"

datatype result = Resolved world | Rejected world

definition emit :: "event list \<Rightarrow> world \<Rightarrow> world" where
  "emit evs w = w\<lparr>trace := trace w @ evs\<rparr>"

text \<open>\<open>_callErrorHooks\<close>: each hook is called in its own \<open>try\<close>, with an empty handler.\<close>

fun callErrorHooks :: "(error \<Rightarrow> unit outcome) list \<Rightarrow> nat \<Rightarrow> error \<Rightarrow> event list" where
  "callErrorHooks [] i err = []"
| "callErrorHooks (fn # fns) i err =
     ErrorHook i err #
       (case fn err of
          Returns u \<Rightarrow> callErrorHooks fns (Suc i) err
        | Throws e \<Rightarrow> callErrorHooks fns (Suc i) err)"

datatype before = Proceed | Stop | Goto string

text \<open>\<open>_runBeforeHooks\<close>: \<open>true\<close>, \<open>false\<close> or the string of the first hook that gives one.\<close>

fun runBeforeHooks :: "router \<Rightarrow> (ctx \<Rightarrow> hook_result) list \<Rightarrow> nat \<Rightarrow> ctx \<Rightarrow> before \<times> event list" where
  "runBeforeHooks R [] i c = (Proceed, [])"
| "runBeforeHooks R (fn # fns) i c =
     (case fn c of
        Abort \<Rightarrow> (Stop, [BeforeHook i c])
      | Redirect u \<Rightarrow> (Goto u, [BeforeHook i c])
      | Fails err \<Rightarrow> (Stop, BeforeHook i c # callErrorHooks (onError R) 0 err)
      | Continue \<Rightarrow>
          (case runBeforeHooks R fns (Suc i) c of (b, evs) \<Rightarrow> (b, BeforeHook i c # evs)))"

fun runAfterHooks :: "router \<Rightarrow> (ctx \<Rightarrow> unit outcome) list \<Rightarrow> nat \<Rightarrow> ctx \<Rightarrow> event list" where
  "runAfterHooks R [] i c = []"
| "runAfterHooks R (fn # fns) i c =
     (case fn c of
        Returns u \<Rightarrow> AfterHook i c # runAfterHooks R fns (Suc i) c
      | Throws err \<Rightarrow>
          AfterHook i c # callErrorHooks (onError R) 0 err @ runAfterHooks R fns (Suc i) c)"

definition buildCtx :: "host \<Rightarrow> string \<Rightarrow> ctx option" where
  "buildCtx H full =
     (case parse H full of
        None \<Rightarrow> None
      | Some u \<Rightarrow> Some \<lparr>c_path = pathname u, c_query = parseQuery (search u), c_full = full\<rparr>)"

definition patch :: "host \<Rightarrow> string \<Rightarrow> world \<Rightarrow> world" where
  "patch H markup w = emit [Patch markup] (w\<lparr>surface := patched H (surface w) markup\<rparr>)"

definition run_scripts :: "host \<Rightarrow> world \<Rightarrow> world" where
  "run_scripts H w = emit [RunScripts] (w\<lparr>surface := scripted H (surface w)\<rparr>)"

definition updateActiveLinks :: "host \<Rightarrow> world \<Rightarrow> world" where
  "updateActiveLinks H w =
     emit [UpdateActiveLinks] (w\<lparr>surface := marked H (location w) (surface w)\<rparr>)"

text \<open>\<open>history.replaceState\<close> or \<open>history.pushState\<close>: both set the location, and
  both throw a \<open>SecurityError\<close> for a URL that the document may not take.\<close>

definition commit :: "host \<Rightarrow> bool \<Rightarrow> snapshot \<Rightarrow> world \<Rightarrow> error \<times> world + world" where
  "commit H rep snap w =
     (if rewritable H (location w) (s_url snap)
      then Inr (emit [if rep then ReplaceState snap else PushState snap]
                  (w\<lparr>location := s_url snap\<rparr>))
      else Inl (SecurityError, w))"

definition scroll :: "nat option \<Rightarrow> world \<Rightarrow> world" where
  "scroll offset w = (case offset of None \<Rightarrow> w | Some y \<Rightarrow> emit [ScrollTo y] w)"

text \<open>
  Fetching a page and extracting its content and title, as \<open>navigate\<close> does in both of
  its fetch paths; the title falls back to \<open>document.title\<close>.
\<close>

definition fetch_page :: "host \<Rightarrow> string \<Rightarrow> world \<Rightarrow> error + cache_entry" where
  "fetch_page H full w =
     (case fetch H full of
        Failed e \<Rightarrow> Inl e
      | Response ok text \<Rightarrow>
          (if \<not> ok then Inl NetworkResponseNotOk
           else (case page_of H text of
               (content, t) \<Rightarrow> Inr \<lparr>html = content, title = (if t = [] then doc_title w else t)\<rparr>)))"

definition store :: "router \<Rightarrow> string \<Rightarrow> cache_entry \<Rightarrow> world \<Rightarrow> world" where
  "store R full entry w =
     (if cache R then w\<lparr>stateCache := obj_set full entry (stateCache w)\<rparr> else w)"

text \<open>The path of \<open>navigate\<close> for a URL that no route matches.\<close>

definition unmatched :: "host \<Rightarrow> router \<Rightarrow> string \<Rightarrow> nav_options \<Rightarrow> world \<Rightarrow> error \<times> world + world" where
  "unmatched H R full opts w =
     (case (case map_of (stateCache w) full of
              Some cached \<Rightarrow> Inr (cached, w)
            | None \<Rightarrow>
                (case fetch_page H full w of
                   Inl e \<Rightarrow> Inl (e, emit [Fetch full] w)
                 | Inr cached \<Rightarrow> Inr (cached, store R full cached (emit [Fetch full] w)))) of
        Inl failure \<Rightarrow> Inl failure
      | Inr (cached, w1) \<Rightarrow>
          (let w2 = run_scripts H (patch H (html cached) w1);
               w3 = w2\<lparr>doc_title := (if title cached = [] then doc_title w2 else title cached)\<rparr>
           in case commit H (replace opts)
                     \<lparr>s_html = html cached, s_title = title cached, s_url = full\<rparr> w3 of
                Inl failure \<Rightarrow> Inl failure
              | Inr w4 \<Rightarrow> Inr (scroll (scrollTop opts) (updateActiveLinks H w4))))"

text \<open>The loader step of the route pipeline: the loader runs unless the data is truthy.\<close>

definition load :: "match_result \<Rightarrow> string \<Rightarrow> world \<Rightarrow> error \<times> world + string option \<times> world" where
  "load m full w =
     (let data = map_of (loaderCache w) full in
      case loader (options (m_route m)) of
        None \<Rightarrow> Inr (data, w)
      | Some f \<Rightarrow>
          (if data \<noteq> None \<and> data \<noteq> Some [] then Inr (data, w)
           else (case f (m_params m) (m_query m) of
               Throws e \<Rightarrow> Inl (e, emit [Loader full] w)
             | Returns d \<Rightarrow>
                 Inr (Some d, emit [Loader full] (w\<lparr>loaderCache := obj_set full d (loaderCache w)\<rparr>)))))"

text \<open>The rendering step: a renderer, else a template, else the page itself.\<close>

definition produce :: "host \<Rightarrow> router \<Rightarrow> match_result \<Rightarrow> string \<Rightarrow> string option \<Rightarrow> world
    \<Rightarrow> error \<times> world + world" where
  "produce H R m full data w =
     (case render (options (m_route m)) of
        Some f \<Rightarrow>
          (case f data (m_params m) (m_query m) of
             Throws e \<Rightarrow> Inl (e, emit [Render full] w)
           | Returns markup \<Rightarrow> Inr (patch H markup (emit [Render full] w)))
      | None \<Rightarrow>
          (if template (options (m_route m)) \<noteq> None \<and> template (options (m_route m)) \<noteq> Some []
           then Inr (patch H (case template (options (m_route m)) of Some t \<Rightarrow> t | None \<Rightarrow> []) w)
           else (case map_of (stateCache w) full of
               Some cached \<Rightarrow>
                 (let w1 = patch H (html cached) w
                  in Inr (w1\<lparr>doc_title := (if title cached = [] then doc_title w1 else title cached)\<rparr>))
             | None \<Rightarrow>
                 (case fetch_page H full w of
                    Inl e \<Rightarrow> Inl (e, emit [Fetch full] w)
                  | Inr page \<Rightarrow>
                      (let w1 = patch H (html page) (store R full page (emit [Fetch full] w))
                       in Inr (w1\<lparr>doc_title := title page\<rparr>))))))"

text \<open>
  The path of \<open>navigate\<close> for a matched route. The class \<open>router-loading\<close> is set before
  the inner \<open>try\<close> and removed in its \<open>finally\<close>.
\<close>

definition pipeline :: "host \<Rightarrow> router \<Rightarrow> match_result \<Rightarrow> string \<Rightarrow> nav_options \<Rightarrow> ctx \<Rightarrow> world
    \<Rightarrow> error \<times> world + world" where
  "pipeline H R m full opts c w =
     (case (case load m full (w\<lparr>loading := True\<rparr>) of
              Inl failure \<Rightarrow> Inl failure
            | Inr (data, w1) \<Rightarrow>
                (case produce H R m full data w1 of
                   Inl failure \<Rightarrow> Inl failure
                 | Inr w2 \<Rightarrow>
                     (let w3 = run_scripts H w2
                      in case commit H (replace opts)
                                \<lparr>s_html = surface w3, s_title = doc_title w3, s_url = full\<rparr> w3 of
                           Inl failure \<Rightarrow> Inl failure
                         | Inr w4 \<Rightarrow>
                             Inr (emit (runAfterHooks R (afterEach R) 0 c)
                                    (scroll (scrollTop opts) (updateActiveLinks H w4)))))) of
        Inl (e, w') \<Rightarrow> Inl (e, w'\<lparr>loading := False\<rparr>)
      | Inr w' \<Rightarrow> Inr (w'\<lparr>loading := False\<rparr>))"

text \<open>
  \<open>navigate(href, {replace, scrollTop})\<close>. A hook that gives a string restarts the
  navigation, which need not end: the first argument bounds the number of restarts and
  \<open>None\<close> is the bound reached. \<open>Rejected\<close> is the promise rejected by a URL constructor
  that throws outside the \<open>try\<close>.
\<close>

fun navigate :: "nat \<Rightarrow> host \<Rightarrow> router \<Rightarrow> string \<Rightarrow> nav_options \<Rightarrow> world \<Rightarrow> result option" where
  "navigate 0 H R href opts w = None"
| "navigate (Suc n) H R href opts w =
     (case resolve H href (location w) of
        None \<Rightarrow> Some (Rejected w)
      | Some full \<Rightarrow>
          (if full = location w then Some (Resolved w)
           else if \<not> container w then Some (Resolved (emit [Assign href] w))
           else (case buildCtx H full of
               None \<Rightarrow> Some (Rejected w)
             | Some c \<Rightarrow>
                 (case runBeforeHooks R (beforeEach R) 0 c of
                    (Stop, evs) \<Rightarrow> Some (Resolved (emit evs w))
                  | (Goto u, evs) \<Rightarrow> navigate n H R u default_options (emit evs w)
                  | (Proceed, evs) \<Rightarrow>
                      (case (case matchRoute (routes R) (parse H full) of
                               Some m \<Rightarrow> pipeline H R m full opts c (emit evs w)
                             | None \<Rightarrow> unmatched H R full opts (emit evs w)) of
                         Inr w' \<Rightarrow> Some (Resolved w')
                       | Inl (err, w') \<Rightarrow>
                           Some (Resolved
                             (emit (callErrorHooks (onError R) 0 err @ [Assign href]) w')))))))"

text \<open>
  \<open>_onPopState\<close>: the event carries the state of the entry, or \<open>null\<close>, and the location
  is already that of the entry.
\<close>

definition onPopState :: "nat \<Rightarrow> host \<Rightarrow> router \<Rightarrow> snapshot option \<Rightarrow> world \<Rightarrow> result option" where
  "onPopState n H R state w =
     (if \<not> container w then Some (Resolved w)
      else (case state of
          None \<Rightarrow> navigate n H R (location w) \<lparr>replace = True, scrollTop = Some 0\<rparr> w
        | Some st \<Rightarrow>
            (if s_html st = []
             then navigate n H R (location w) \<lparr>replace = True, scrollTop = Some 0\<rparr> w
             else (let w1 = patch H (s_html st) w;
                       w2 = w1\<lparr>doc_title := (if s_title st = [] then doc_title w1 else s_title st)\<rparr>
                   in Some (Resolved (updateActiveLinks H (run_scripts H w2)))))))"

text \<open>
  The click listener of \<open>_bindClicks\<close>. \<open>link\<close> is the first non-empty one of the
  attributes \<open>href\<close>, \<open>data-href\<close> and \<open>data-route\<close> of the closest element that the
  selectors find, \<open>None\<close> without such an element or attribute; \<open>plain\<close> says that the
  button is the primary one and no modifier key is held.
\<close>

record click =
  defaultPrevented :: bool
  link :: "string option"
  plain :: bool

definition matchesLocal :: "host \<Rightarrow> string \<Rightarrow> world \<Rightarrow> bool" where
  "matchesLocal H href w =
     (case resolve H href (location w) of
        None \<Rightarrow> False
      | Some u \<Rightarrow> origin H u = origin H (location w))"

definition onClick :: "nat \<Rightarrow> host \<Rightarrow> router \<Rightarrow> click \<Rightarrow> world \<Rightarrow> result option" where
  "onClick n H R e w =
     (if defaultPrevented e then Some (Resolved w)
      else (case link e of
          None \<Rightarrow> Some (Resolved w)
        | Some href \<Rightarrow>
            (if \<not> plain e \<or> \<not> matchesLocal H href w then Some (Resolved w)
             else (case Option.bind (resolve H href (location w)) (buildCtx H) of
                 None \<Rightarrow> Some (Rejected (emit [PreventDefault] w))
               | Some c \<Rightarrow>
                   (case runBeforeHooks R (beforeEach R) 0 c of
                      (Stop, evs) \<Rightarrow> Some (Resolved (emit (PreventDefault # evs) w))
                    | (Goto u, evs) \<Rightarrow>
                        navigate n H R u default_options (emit (PreventDefault # evs) w)
                    | (Proceed, evs) \<Rightarrow>
                        navigate n H R href default_options (emit (PreventDefault # evs) w))))))"

text \<open>
  \<open>init\<close>, after the listeners are bound: the current content becomes the state of the
  history entry and an entry of the content cache.
\<close>

definition init :: "host \<Rightarrow> router \<Rightarrow> world \<Rightarrow> world" where
  "init H R w =
     (let markup = (if container w then surface w else body w);
          w1 = emit [ReplaceState \<lparr>s_html = markup, s_title = doc_title w, s_url = location w\<rparr>] w;
          w2 = w1\<lparr>stateCache :=
                 obj_set (location w) \<lparr>html = markup, title = doc_title w\<rparr> (stateCache w1)\<rparr>
      in updateActiveLinks H w2)"

text \<open>
  The hover listener of \<open>_bindPrefetch\<close>, with the loader or the fetch it starts run to
  completion. \<open>hovered\<close> is \<open>None\<close> without an element for the link selector, else whether
  the element has \<open>data-prefetch\<close> and the first non-empty one of its three attributes.
\<close>

definition onHover :: "host \<Rightarrow> router \<Rightarrow> (bool \<times> string option) option \<Rightarrow> world \<Rightarrow> world" where
  "onHover H R hovered w =
     (case hovered of
        None \<Rightarrow> w
      | Some (flagged, target) \<Rightarrow>
          (if \<not> prefetchOnHover R \<and> \<not> flagged then w
           else (case Option.bind target (\<lambda>href. resolve H href (location w)) of
               None \<Rightarrow> w
             | Some full \<Rightarrow>
                 (if map_of (stateCache w) full \<noteq> None \<or> map_of (loaderCache w) full \<noteq> None then w
                  else (case Option.bind (matchRoute (routes R) (parse H full))
                               (\<lambda>m. map_option (Pair m) (loader (options (m_route m)))) of
                      Some (m, f) \<Rightarrow>
                        (case f (m_params m) (m_query m) of
                           Returns d \<Rightarrow>
                             emit [Loader full] (w\<lparr>loaderCache := obj_set full d (loaderCache w)\<rparr>)
                         | Throws e \<Rightarrow> emit [Loader full] w)
                    | None \<Rightarrow>
                        (case fetch H full of
                           Failed e \<Rightarrow> emit [Fetch full] w
                         | Response ok text \<Rightarrow>
                             (if \<not> ok then emit [Fetch full] w
                              else (case page_of H text of
                                  (content, t) \<Rightarrow>
                                    emit [Fetch full]
                                      (w\<lparr>stateCache :=
                                           obj_set full \<lparr>html = content, title = t\<rparr> (stateCache w)\<rparr>)))))))))"

text \<open>The error that the transport gives for a URL, if it fails: a rejected fetch or a
  response that is not ok.\<close>

definition transport_error :: "host \<Rightarrow> string \<Rightarrow> error option" where
  "transport_error H full =
     (case fetch H full of
        Failed e \<Rightarrow> Some e
      | Response ok text \<Rightarrow> if ok then None else Some NetworkResponseNotOk)"

subsection \<open>A small site for the examples\<close>

text \<open>
  A host with one origin, whose pages are their own content and have no title, where
  \<open>/down\<close> cannot be fetched and \<open>/gone\<close> answers with an error status; patching gives
  the new markup. The page \<open>/\<close> is showing.
\<close>

definition demo_host :: host where
  "demo_host =
     \<lparr>resolve = (\<lambda>href base.
        if take 7 href = ''http://'' then Some href
        else if href \<noteq> [] \<and> hd href = CHR ''/'' then Some (''http://app.test'' @ href)
        else None),
      parse = (\<lambda>full. Some \<lparr>pathname = drop 15 full, search = []\<rparr>),
      origin = take 15,
      fetch = (\<lambda>u.
        if u = ''http://app.test/down'' then Failed (Thrown ''offline'')
        else if u = ''http://app.test/gone'' then Response False ''gone''
        else Response True ''<p>fetched</p>''),
      page_of = (\<lambda>text. (text, [])),
      patched = (\<lambda>old markup. markup),
      scripted = (\<lambda>s. s),
      marked = (\<lambda>loc s. s),
      rewritable = (\<lambda>from to. take 15 from = take 15 to)\<rparr>"

definition demo_world :: world where
  "demo_world =
     \<lparr>location = ''http://app.test/'', doc_title = ''Home'', container = True,
      surface = ''<p>home</p>'', body = ''<div id=app><p>home</p></div>'', loading = False,
      stateCache = [], loaderCache = [], trace = []\<rparr>"

text \<open>A router with one inert route, one \<open>beforeEach\<close> hook that lets every navigation
  pass, and two \<open>onError\<close> hooks, the first of which throws.\<close>

definition demo_router :: router where
  "demo_router =
     \<lparr>cache = True, prefetchOnHover = True, routes = [about_route],
      beforeEach = [\<lambda>c. Continue], afterEach = [],
      onError = [\<lambda>e. Throws (Thrown ''hook''), \<lambda>e. Returns ()]\<rparr>"

text \<open>The same with a second hook that vetoes every navigation and a third one.\<close>

definition guarded_router :: router where
  "guarded_router = demo_router\<lparr>beforeEach := [\<lambda>c. Continue, \<lambda>c. Abort, \<lambda>c. Continue]\<rparr>"

text \<open>The same router with the content cache switched off, and the world after \<open>init\<close>
  on the page \<open>/\<close> once the location has moved on to \<open>/x\<close>.\<close>

definition uncached_router :: router where
  "uncached_router = demo_router\<lparr>cache := False\<rparr>"

definition revisit_world :: world where
  "revisit_world = (init demo_host uncached_router demo_world)\<lparr>location := ''http://app.test/x''\<rparr>"

text \<open>The trace of \<open>w'\<close> extends that of \<open>w\<close> by events none of which is the call of a
  \<open>beforeEach\<close> hook.\<close>

definition before_hook :: "event \<Rightarrow> bool" where
  "before_hook e = (case e of BeforeHook j c \<Rightarrow> True | _ \<Rightarrow> False)"

definition quiet :: "world \<Rightarrow> world \<Rightarrow> bool" where
  "quiet w w' \<longleftrightarrow>
     take (length (trace w)) (trace w') = trace w \<and>
     \<not> list_ex before_hook (drop (length (trace w)) (trace w'))"

section \<open>Tree reconciler\<close>

text \<open>
  The nodes that the HTML parser gives: text, comments, and elements with a tag name
  (in lower case), attributes in order, and children. The state of form controls is not
  part of a node, so \<open>_copyInputState\<close>, which copies nothing else, does not appear.
\<close>

datatype node = Text string | Comment string | Element string "(string \<times> string) list" "node list"

datatype dom_error = TypeError

definition getAttribute :: "node \<Rightarrow> string \<Rightarrow> string option" where
  "getAttribute n name = (case n of Element t attrs cs \<Rightarrow> map_of attrs name | _ \<Rightarrow> None)"

definition hasAttribute :: "node \<Rightarrow> string \<Rightarrow> bool" where
  "hasAttribute n name \<longleftrightarrow> getAttribute n name \<noteq> None"

text \<open>The value of \<open>data-router-key\<close> when it is truthy.\<close>

definition key_of :: "node \<Rightarrow> string option" where
  "key_of n =
     (case getAttribute n ''data-router-key'' of
        None \<Rightarrow> None
      | Some k \<Rightarrow> if k = [] then None else Some k)"

fun isSameNode :: "node \<Rightarrow> node \<Rightarrow> bool" where
  "isSameNode (Text a) (Text b) = True"
| "isSameNode (Element t attrs cs) (Element t' attrs' cs') =
     (if t \<noteq> t' then False
      else if key_of (Element t attrs cs) \<noteq> None \<or> key_of (Element t' attrs' cs') \<noteq> None
      then key_of (Element t attrs cs) \<noteq> None \<and> key_of (Element t' attrs' cs') \<noteq> None \<and>
           key_of (Element t attrs cs) = key_of (Element t' attrs' cs')
      else True)"
| "isSameNode old new = False"

text \<open>\<open>_updateAttributes\<close>: the attributes of the old element afterwards.\<close>

definition updateAttributes :: "(string \<times> string) list \<Rightarrow> (string \<times> string) list \<Rightarrow> (string \<times> string) list" where
  "updateAttributes old new =
     foldl (\<lambda>attrs (name, v). if map_of attrs name \<noteq> Some v then obj_set name v attrs else attrs)
       (filter (\<lambda>(name, v). map_of new name \<noteq> None) old) new"

text \<open>The text of the descendants of an element, its \<open>textContent\<close>.\<close>

fun text_of :: "node \<Rightarrow> string" where
  "text_of (Text s) = s"
| "text_of (Comment s) = []"
| "text_of (Element t attrs cs) = concat (map text_of cs)"

text \<open>\<open>old.dataset.routerExecuted\<close> is truthy.\<close>

definition executed :: "node \<Rightarrow> bool" where
  "executed n \<longleftrightarrow>
     getAttribute n ''data-router-executed'' \<noteq> None \<and> getAttribute n ''data-router-executed'' \<noteq> Some []"

text \<open>
  The script element that replaces a script which is not marked. \<open>U\<close> resolves the
  \<open>src\<close> attribute against the document, as the property \<open>old.src\<close> does. With a source
  the copy gets the resolved address, loses \<open>async\<close>, and is marked only when its
  \<open>load\<close> event comes; without one it gets the text and the mark.
\<close>

definition recreate :: "(string \<Rightarrow> string) \<Rightarrow> (string \<times> string) list \<Rightarrow> node list \<Rightarrow> node" where
  "recreate U attrs cs =
     (case map_of attrs ''src'' of
        Some v \<Rightarrow>
          (if U v \<noteq> []
           then Element ''script'' (filter (\<lambda>(name, x). name \<noteq> ''async'') (obj_set ''src'' (U v) attrs)) []
           else Element ''script'' (obj_set ''data-router-executed'' ''1'' attrs)
                  (if concat (map text_of cs) = [] then [] else [Text (concat (map text_of cs))]))
      | None \<Rightarrow>
          Element ''script'' (obj_set ''data-router-executed'' ''1'' attrs)
            (if concat (map text_of cs) = [] then [] else [Text (concat (map text_of cs))]))"

text \<open>
  The scripts among the nodes and their descendants, in document order: one that is not
  marked is replaced, which runs it; the result is the nodes afterwards and the scripts
  that activated. The children of a replaced script leave the tree with it.
\<close>

fun activate :: "(string \<Rightarrow> string) \<Rightarrow> node \<Rightarrow> node \<times> node list"
  and activate_all :: "(string \<Rightarrow> string) \<Rightarrow> node list \<Rightarrow> node list \<times> node list" where
  "activate U (Text s) = (Text s, [])"
| "activate U (Comment s) = (Comment s, [])"
| "activate U (Element t attrs cs) =
     (if t = ''script'' \<and> \<not> executed (Element t attrs cs)
      then (recreate U attrs cs, [recreate U attrs cs])
      else (case activate_all U cs of (cs', activated) \<Rightarrow> (Element t attrs cs', activated)))"
| "activate_all U [] = ([], [])"
| "activate_all U (n # ns) =
     (case activate U n of
        (n', activated) \<Rightarrow> (case activate_all U ns of (ns', activated') \<Rightarrow> (n' # ns', activated @ activated')))"

text \<open>\<open>_runScripts(container)\<close>, on the children of the container.\<close>

definition runScripts :: "(string \<Rightarrow> string) \<Rightarrow> node list \<Rightarrow> node list \<times> node list" where
  "runScripts U cs = activate_all U cs"

text \<open>\<open>_execScriptsInNode(node)\<close>: the scripts below the node, not the node itself.\<close>

definition execScriptsInNode :: "(string \<Rightarrow> string) \<Rightarrow> node \<Rightarrow> node \<times> node list" where
  "execScriptsInNode U n =
     (case n of
        Element t attrs cs \<Rightarrow> (case activate_all U cs of (cs', activated) \<Rightarrow> (Element t attrs cs', activated))
      | _ \<Rightarrow> (n, []))"

text \<open>
  The children of a parent while \<open>_updateChildren\<close> works on it. Nodes are objects, so
  each child carries a reference: the old children are numbered from 0 and each clone
  gets the next number. \<open>kids\<close> is the live list \<open>childNodes\<close>, \<open>gone\<close> the old children
  that have left the parent, \<open>idx\<close> is \<open>oldIndex\<close>, and \<open>activated\<close> the scripts run so far.
\<close>

record frame =
  kids :: "(nat \<times> node) list"
  gone :: "(nat \<times> node) list"
  idx :: nat
  fresh :: nat
  activated :: "node list"

text \<open>The map \<open>keyedOld\<close>: for each key the last old child that has it.\<close>

definition keyedOld :: "(nat \<times> node) list \<Rightarrow> string \<Rightarrow> nat option" where
  "keyedOld ks =
     foldl (\<lambda>m (r, c). case key_of c of None \<Rightarrow> m | Some k \<Rightarrow> m(k \<mapsto> r)) (\<lambda>k. None) ks"

text \<open>\<open>parent.insertBefore(x, ref)\<close>: \<open>x\<close> leaves its place, if it has one, and goes
  before the child \<open>ref\<close>, or to the end.\<close>

definition insertBefore :: "nat \<times> node \<Rightarrow> nat option \<Rightarrow> (nat \<times> node) list \<Rightarrow> (nat \<times> node) list" where
  "insertBefore x ref ks =
     (let others = filter (\<lambda>(r, n). r \<noteq> fst x) ks in
      case ref of
        None \<Rightarrow> others @ [x]
      | Some q \<Rightarrow> takeWhile (\<lambda>(r, n). r \<noteq> q) others @ x # dropWhile (\<lambda>(r, n). r \<noteq> q) others)"

definition oldChild :: "frame \<Rightarrow> (nat \<times> node) option" where
  "oldChild fr = (if idx fr < length (kids fr) then Some (kids fr ! idx fr) else None)"

text \<open>
  What one round of the loop over the new children does before it patches: the child to
  patch, by key (\<open>Keyed\<close>) or by position or lookahead (\<open>Paired\<close>), after it has been moved
  into place; or nothing to patch (\<open>Cloned\<close>), the new child having been appended or put
  in the place of the old one.
\<close>

datatype plan = Keyed nat node frame | Paired nat node frame | Cloned frame

definition keyed_match :: "(string \<Rightarrow> nat option) \<Rightarrow> node \<Rightarrow> frame \<Rightarrow> (nat \<times> node) option" where
  "keyed_match keyed newChild fr =
     (case newChild of
        Element t attrs cs \<Rightarrow>
          (case key_of newChild of
             None \<Rightarrow> None
           | Some k \<Rightarrow>
               (case keyed k of
                  None \<Rightarrow> None
                | Some r \<Rightarrow> map_option (Pair r) (map_of (kids fr @ gone fr) r)))
      | _ \<Rightarrow> None)"

definition plan_for :: "(string \<Rightarrow> string) \<Rightarrow> (string \<Rightarrow> nat option) \<Rightarrow> node \<Rightarrow> frame \<Rightarrow> plan" where
  "plan_for U keyed newChild fr =
     (case keyed_match keyed newChild fr of
        Some (r, match) \<Rightarrow>
          Keyed r match
            (if Some r \<noteq> map_option fst (oldChild fr)
             then fr\<lparr>kids := insertBefore (r, match) (map_option fst (oldChild fr)) (kids fr),
                     gone := filter (\<lambda>(q, n). q \<noteq> r) (gone fr)\<rparr>
             else fr)
      | None \<Rightarrow>
          (case oldChild fr of
             None \<Rightarrow>
               (case execScriptsInNode U newChild of
                  (clone, scripts) \<Rightarrow>
                    Cloned (fr\<lparr>kids := kids fr @ [(fresh fr, clone)], fresh := Suc (fresh fr),
                               idx := Suc (idx fr), activated := activated fr @ scripts\<rparr>))
           | Some (q, old) \<Rightarrow>
               (if isSameNode old newChild then Paired q old fr
                else (case find (\<lambda>(r, n). isSameNode n newChild) (drop (Suc (idx fr)) (kids fr)) of
                    Some (r, nodeToMove) \<Rightarrow>
                      Paired r nodeToMove
                        (fr\<lparr>kids := insertBefore (r, nodeToMove) (Some q) (kids fr)\<rparr>)
                  | None \<Rightarrow>
                      (case execScriptsInNode U newChild of
                         (clone, scripts) \<Rightarrow>
                           Cloned (fr\<lparr>kids := (kids fr)[idx fr := (fresh fr, clone)],
                                      gone := gone fr @ [(q, old)], fresh := Suc (fresh fr),
                                      idx := Suc (idx fr), activated := activated fr @ scripts\<rparr>))))))"

text \<open>What \<open>_patchNode\<close> did to the old node: it is still there, as given, or a clone
  has taken its place; with the scripts that activated.\<close>

datatype patch_result = Kept node "node list" | Replaced node "node list"

definition settle :: "nat \<Rightarrow> node \<Rightarrow> patch_result \<Rightarrow> frame \<Rightarrow> frame" where
  "settle r old res fr =
     (case res of
        Kept n scripts \<Rightarrow>
          fr\<lparr>kids := map (\<lambda>(q, x). if q = r then (q, n) else (q, x)) (kids fr),
             activated := activated fr @ scripts\<rparr>
      | Replaced clone scripts \<Rightarrow>
          fr\<lparr>kids := map (\<lambda>(q, x). if q = r then (fresh fr, clone) else (q, x)) (kids fr),
             gone := gone fr @ [(r, old)], fresh := Suc (fresh fr), activated := activated fr @ scripts\<rparr>)"

definition advance :: "frame \<Rightarrow> frame" where
  "advance fr = fr\<lparr>idx := Suc (idx fr)\<rparr>"

definition start :: "node list \<Rightarrow> frame" where
  "start cs = \<lparr>kids = zip [0 ..< length cs] cs, gone = [], idx = 0, fresh = length cs, activated = []\<rparr>"

text \<open>The first test of \<open>_patchNode\<close>: \<open>newNode.hasAttribute\<close> is called, on an old element
  that is not preserved, and is not a function unless the new node is an element.\<close>

definition preserved :: "node \<Rightarrow> node \<Rightarrow> dom_error + bool" where
  "preserved old new =
     (case old of
        Element t attrs cs \<Rightarrow>
          (if hasAttribute old ''data-preserve'' then Inr True
           else (case new of
               Element t' attrs' cs' \<Rightarrow> Inr (hasAttribute new ''data-preserve'')
             | _ \<Rightarrow> Inl TypeError))
      | _ \<Rightarrow> Inr False)"

definition both_text :: "node \<Rightarrow> node \<Rightarrow> bool" where
  "both_text old new = (case (old, new) of (Text a, Text b) \<Rightarrow> True | _ \<Rightarrow> False)"

definition must_replace :: "node \<Rightarrow> node \<Rightarrow> bool" where
  "must_replace old new \<longleftrightarrow>
     \<not> isSameNode old new \<or> (key_of old \<noteq> None \<and> key_of new \<noteq> None \<and> key_of old \<noteq> key_of new)"

fun patchNode :: "(string \<Rightarrow> string) \<Rightarrow> node \<Rightarrow> node \<Rightarrow> dom_error + patch_result"
  and reconcile :: "(string \<Rightarrow> string) \<Rightarrow> (string \<Rightarrow> nat option) \<Rightarrow> node list \<Rightarrow> frame \<Rightarrow> dom_error + frame" where
  "patchNode U old new =
     (case preserved old new of
        Inl e \<Rightarrow> Inl e
      | Inr True \<Rightarrow> Inr (Kept old [])
      | Inr False \<Rightarrow>
          (if both_text old new then Inr (Kept new [])
           else if must_replace old new
           then (case execScriptsInNode U new of (clone, scripts) \<Rightarrow> Inr (Replaced clone scripts))
           else (case new of
               Element t' attrs' cs' \<Rightarrow>
                 (case old of
                    Element t attrs cs \<Rightarrow>
                      (case reconcile U (keyedOld (kids (start cs))) cs' (start cs) of
                         Inl e \<Rightarrow> Inl e
                       | Inr fr \<Rightarrow>
                           Inr (Kept (Element t (updateAttributes attrs attrs')
                                       (map snd (take (length cs') (kids fr)))) (activated fr)))
                  | _ \<Rightarrow> Inr (Kept old []))
             | _ \<Rightarrow> Inr (Kept old []))))"
| "reconcile U keyed [] fr = Inr fr"
| "reconcile U keyed (newChild # rest) fr =
     (case plan_for U keyed newChild fr of
        Cloned fr' \<Rightarrow> reconcile U keyed rest fr'
      | Keyed r match fr' \<Rightarrow>
          (case patchNode U match newChild of
             Inl e \<Rightarrow> Inl e
           | Inr res \<Rightarrow>
               reconcile U keyed rest
                 (if map_option fst (oldChild (settle r match res fr')) = Some r
                  then advance (settle r match res fr') else settle r match res fr'))
      | Paired r old fr' \<Rightarrow>
          (case patchNode U old newChild of
             Inl e \<Rightarrow> Inl e
           | Inr res \<Rightarrow> reconcile U keyed rest (advance (settle r old res fr'))))"

text \<open>\<open>_updateChildren\<close> on the children of the old and of the new parent: the children
  afterwards, the surplus removed from the end, and the scripts that activated.\<close>

definition updateChildren :: "(string \<Rightarrow> string) \<Rightarrow> node list \<Rightarrow> node list \<Rightarrow> dom_error + node list \<times> node list" where
  "updateChildren U old new =
     (case reconcile U (keyedOld (kids (start old))) new (start old) of
        Inl e \<Rightarrow> Inl e
      | Inr fr \<Rightarrow> Inr (map snd (take (length new) (kids fr)), activated fr))"

declare patchNode.simps [simp del]

text \<open>
  \<open>this._patch(container, html)\<close> followed by \<open>this._runScripts(container)\<close>, as
  \<open>navigate\<close> calls them, on the children of the container and the parsed markup: the
  children afterwards and the scripts that ran.
\<close>

definition patch_and_run :: "(string \<Rightarrow> string) \<Rightarrow> node list \<Rightarrow> node list \<Rightarrow> dom_error + node list \<times> node list" where
  "patch_and_run U live markup =
     (case updateChildren U live markup of
        Inl e \<Rightarrow> Inl e
      | Inr (cs, scripts) \<Rightarrow>
          (case runScripts U cs of (cs', scripts') \<Rightarrow> Inr (cs', scripts @ scripts')))"

section \<open>Properties of the route matcher\<close>


lemma wildcard_source: "pattern_source ''/files/*'' = (''^/files/*$'', [])"
  by code_simp

lemma wildcard_compiled:
  "pathToRegex ''/files/*'' =
     Inr ([Bol, One (lit CHR ''/''), One (lit CHR ''f''), One (lit CHR ''i''), One (lit CHR ''l''),
           One (lit CHR ''e''), One (lit CHR ''s''), Star (lit CHR ''/''), Eol], [])"
  by code_simp

lemma wildcard_no_match:
  "str_match ''/files/abc''
     [Bol, One (lit CHR ''/''), One (lit CHR ''f''), One (lit CHR ''i''), One (lit CHR ''l''),
      One (lit CHR ''e''), One (lit CHR ''s''), Star (lit CHR ''/''), Eol] = None"
  by code_simp

lemma param_source:
  "pattern_source ''/user/:id'' = (''^/user/'' @ bslash # ''([^/]+)$'', [''id''])"
  by code_simp

lemma param_compiled: "pathToRegex ''/user/:id'' = Inl SyntaxError"
  by code_simp

text \<open>
  C1 (fails on the code). The class of the first replacement contains the colon and not
  the star. So the star of \<open>/files/*\<close> reaches \<open>RegExp\<close> as a quantifier on the slash
  before it: the route is registered with no capture, and the URL \<open>/files/abc\<close>, the
  pattern with its wildcard replaced by \<open>abc\<close>, has no match. And the colon of
  \<open>/user/:id\<close> is escaped before the third replacement sees it, whose opening
  parenthesis then follows a backslash: the source has an unmatched closing parenthesis,
  \<open>RegExp\<close> throws and the route is not registered.
\<close>

theorem pathToRegex_breaks_round_trip:
  "pattern_source ''/files/*'' = (''^/files/*$'', []) \<and>
   \<not> isl (route_add ''/files/*'' no_options []) \<and>
   matchRoute (projr (route_add ''/files/*'' no_options []))
     (Some \<lparr>pathname = ''/files/abc'', search = []\<rparr>) = None \<and>
   pattern_source ''/user/:id'' = (''^/user/'' @ bslash # ''([^/]+)$'', [''id'']) \<and>
   route_add ''/user/:id'' no_options [] = Inl SyntaxError"
  by (simp add: route_add_def matchRoute_def wildcard_source wildcard_compiled
      wildcard_no_match param_source param_compiled)

subsection \<open>No registered route has a key\<close>

lemma flatten_append [simp]: "flatten (xs @ ys) = flatten xs @ flatten ys"
  by (induction xs rule: flatten.induct) auto

lemma flatten_Nil [simp]: "flatten ts = [] \<longleftrightarrow> ts = []"
  by (cases ts rule: flatten.cases) auto


lemma doomed_Raw [simp]: "doomed (Raw c # ts) = doomed ts"
  by (simp add: block_def)




declare doomed.simps(2) [simp del]






















lemma escaped_not_alnum: "escaped c \<Longrightarrow> \<not> alnum c"
  by (auto simp: escaped_def alnum_def)





















section \<open>Properties of the navigation controller\<close>

lemma callErrorHooks_eq:
  "callErrorHooks fns i err = map (\<lambda>j. ErrorHook j err) [i ..< i + length fns]"
proof (induction fns arbitrary: i)
  case Nil
  show ?case by simp
next
  case (Cons f fns)
  have "[i ..< i + length (f # fns)] = i # [Suc i ..< Suc i + length fns]"
    by (simp add: upt_rec)
  with Cons [of "Suc i"] show ?case by (simp split: outcome.splits)
qed

lemma runBeforeHooks_pass:
  "\<forall>f \<in> set fns. f c = Continue \<Longrightarrow>
   runBeforeHooks R fns i c = (Proceed, map (\<lambda>j. BeforeHook j c) [i ..< i + length fns])"
proof (induction fns arbitrary: i)
  case Nil
  show ?case by simp
next
  case (Cons f fns)
  have "[i ..< i + length (f # fns)] = i # [Suc i ..< Suc i + length fns]"
    by (simp add: upt_rec)
  with Cons.prems Cons.IH [of "Suc i"] show ?case by simp
qed

lemma runBeforeHooks_abort:
  "\<forall>f \<in> set pre. f c = Continue \<Longrightarrow> h c = Abort \<Longrightarrow>
   runBeforeHooks R (pre @ h # post) i c = (Stop, map (\<lambda>j. BeforeHook j c) [i ..< Suc (i + length pre)])"
proof (induction pre arbitrary: i)
  case Nil
  then show ?case by simp
next
  case (Cons f pre)
  have "[i ..< Suc (i + length (f # pre))] = i # [Suc i ..< Suc (Suc i + length pre)]"
    by (simp add: upt_rec)
  with Cons.prems Cons.IH [of "Suc i"] show ?case by simp
qed

text \<open>
  C7. A call of \<open>navigate\<close> whose target resolves to the current location returns at
  once: the world is unchanged, so nothing is fetched, the history is not touched and no
  hook is called.
\<close>

theorem navigate_current_is_noop:
  "resolve H href (location w) = Some (location w) \<Longrightarrow>
   navigate (Suc n) H R href opts w = Some (Resolved w)"
  by simp

text \<open>
  C3 (fails on the code). On a history-pop event without a snapshot, with the container
  present, \<open>_onPopState\<close> calls \<open>navigate(location.href, {replace: true})\<close>; the target
  is the current location, so \<open>navigate\<close> returns at its first test and the world is
  unchanged: nothing is fetched or rendered and the history state is not replaced.
\<close>

theorem popstate_without_snapshot_is_noop:
  assumes "container w"
    and "state = None \<or> map_option s_html state = Some []"
    and "resolve H (location w) (location w) = Some (location w)"
  shows "onPopState (Suc n) H R state w = Some (Resolved w)"
  using assms by (auto simp: onPopState_def split: option.splits)

text \<open>
  C6. When a \<open>beforeEach\<close> hook returns \<open>false\<close> after the hooks before it let the
  navigation pass, \<open>navigate\<close> ends there: the hooks up to that one were called, each
  once and in order, and nothing else happened (no fetch, no patch, no history entry, no
  later hook, no error hook).
\<close>

theorem before_hook_false_aborts:
  assumes "resolve H href (location w) = Some full"
    and "full \<noteq> location w"
    and "container w"
    and "buildCtx H full = Some c"
    and "beforeEach R = pre @ h # post"
    and "\<forall>f \<in> set pre. f c = Continue"
    and "h c = Abort"
  shows "navigate (Suc n) H R href opts w =
    Some (Resolved (emit (map (\<lambda>j. BeforeHook j c) [0 ..< Suc (length pre)]) w))"
  using assms runBeforeHooks_abort [of pre c h R post 0] by simp

lemma fetch_page_fails: "transport_error H full = Some err \<Longrightarrow> fetch_page H full w = Inl err"
  by (auto simp: transport_error_def fetch_page_def split: response.splits if_splits)

lemma fetch_page_ok:
  "transport_error H full = None \<Longrightarrow> \<exists>page. fetch_page H full w = Inr page"
  by (auto simp: transport_error_def fetch_page_def split: response.splits if_splits prod.splits)

lemma unmatched_failure:
  "map_of (stateCache w) full = None \<Longrightarrow> transport_error H full = Some err \<Longrightarrow>
   unmatched H R full opts w = Inl (err, emit [Fetch full] w)"
  by (simp add: unmatched_def fetch_page_fails)

lemma inert_failure:
  "options (m_route m) = no_options \<Longrightarrow> map_of (stateCache w) full = None \<Longrightarrow>
   transport_error H full = Some err \<Longrightarrow>
   pipeline H R m full opts c w = Inl (err, (emit [Fetch full] w)\<lparr>loading := False\<rparr>)"
  by (simp add: pipeline_def load_def produce_def no_options_def fetch_page_fails emit_def)

text \<open>
  C5. A navigation that the hooks let pass, to a URL that no route matches or that an
  inert route matches, and that is not in the content cache: when the transport fails
  (a rejected fetch or a response that is not ok), each \<open>onError\<close> hook is called once
  with the error, in order and whatever the hooks before it did, and the navigation ends
  with the full navigation to the \<open>href\<close> it was given; the surface, the location and
  the content cache are as before.
\<close>

theorem transport_failure_calls_error_hooks_once:
  assumes "resolve H href (location w) = Some full"
    and "full \<noteq> location w"
    and "container w"
    and "buildCtx H full = Some c"
    and "\<forall>f \<in> set (beforeEach R). f c = Continue"
    and "matchRoute (routes R) (parse H full) = None \<or>
         map_option (\<lambda>m. options (m_route m)) (matchRoute (routes R) (parse H full)) = Some no_options"
    and "map_of (stateCache w) full = None"
    and "transport_error H full = Some err"
  shows "\<exists>w'. navigate (Suc n) H R href opts w = Some (Resolved w') \<and>
      trace w' = trace w @ map (\<lambda>j. BeforeHook j c) [0 ..< length (beforeEach R)] @ [Fetch full] @
        map (\<lambda>j. ErrorHook j err) [0 ..< length (onError R)] @ [Assign href] \<and>
      location w' = location w \<and> surface w' = surface w \<and> stateCache w' = stateCache w"
proof -
  let ?evs = "map (\<lambda>j. BeforeHook j c) [0 ..< length (beforeEach R)]"
  have hooks: "runBeforeHooks R (beforeEach R) 0 c = (Proceed, ?evs)"
    using runBeforeHooks_pass [OF assms(5), of R 0] by simp
  have miss: "map_of (stateCache (emit ?evs w)) full = None"
    using assms(7) by (simp add: emit_def)
  from assms(6) show ?thesis
  proof
    assume "matchRoute (routes R) (parse H full) = None"
    then show ?thesis
      using assms(1-4) hooks unmatched_failure [OF miss assms(8)]
      by (simp add: emit_def callErrorHooks_eq)
  next
    assume "map_option (\<lambda>m. options (m_route m)) (matchRoute (routes R) (parse H full)) = Some no_options"
    then obtain m where m: "matchRoute (routes R) (parse H full) = Some m"
      and inert: "options (m_route m) = no_options"
      by auto
    show ?thesis
      using assms(1-4) hooks m inert_failure [OF inert miss assms(8)]
      by (simp add: emit_def callErrorHooks_eq)
  qed
qed

text \<open>A URL that the document may not take makes \<open>commit\<close> throw, the world as it was.\<close>

lemma commit_refused:
  "\<not> rewritable H (location w) (s_url snap) \<Longrightarrow> commit H rep snap w = Inl (SecurityError, w)"
  by (simp add: commit_def)

lemma map_of_obj_set: "map_of (obj_set k v ps) k = Some v"
  by (induction ps) auto

lemma runAfterHooks_no_fetch: "Fetch u \<notin> set (runAfterHooks R fns i c)"
  by (induction fns arbitrary: i) (auto simp: callErrorHooks_eq split: outcome.splits)

lemmas effects = emit_def patch_def run_scripts_def commit_def scroll_def updateActiveLinks_def
  store_def

text \<open>
  What \<open>navigate\<close> leaves behind once the hooks have let it pass: the world of the path
  taken, or after a throw that of the \<open>catch\<close>, the error hooks and the full navigation.
\<close>

lemma navigate_settles:
  assumes "resolve H href (location w) = Some full"
    and "full \<noteq> location w"
    and "container w"
    and "buildCtx H full = Some c"
    and "runBeforeHooks R (beforeEach R) 0 c = (Proceed, evs)"
    and "(case matchRoute (routes R) (parse H full) of
            Some m \<Rightarrow> pipeline H R m full opts c (emit evs w)
          | None \<Rightarrow> unmatched H R full opts (emit evs w)) = r"
  shows "navigate (Suc n) H R href opts w =
     Some (Resolved (case r of
         Inr w' \<Rightarrow> w'
       | Inl (err, w') \<Rightarrow> emit (callErrorHooks (onError R) 0 err @ [Assign href]) w'))"
  using assms by (auto split: sum.splits)

lemma callErrorHooks_no_fetch: "Fetch u \<notin> set (callErrorHooks fns i err)"
  by (auto simp: callErrorHooks_eq)

lemma caught_hit:
  assumes "trace w' = trace w @ [Patch content, RunScripts] @ es"
    and "\<forall>u. Fetch u \<notin> set es"
    and "stateCache w' = stateCache w"
    and "r = Inr w' \<or> r = Inl (err, w')"
  shows "\<exists>w'' es'.
     (case r of Inr v \<Rightarrow> v
      | Inl (e, v) \<Rightarrow> emit (callErrorHooks fns 0 e @ [Assign href]) v) = w'' \<and>
     trace w'' = trace w @ [Patch content, RunScripts] @ es' \<and> (\<forall>u. Fetch u \<notin> set es') \<and>
     stateCache w'' = stateCache w"
  using assms(4)
proof
  assume "r = Inr w'"
  then show ?thesis using assms(1-3) by auto
next
  assume r: "r = Inl (err, w')"
  have "trace (emit (callErrorHooks fns 0 err @ [Assign href]) w') =
      trace w @ [Patch content, RunScripts] @ (es @ callErrorHooks fns 0 err @ [Assign href])"
    using assms(1) by (simp add: emit_def)
  moreover have "\<forall>u. Fetch u \<notin> set (es @ callErrorHooks fns 0 err @ [Assign href])"
    using assms(2) by (simp add: callErrorHooks_no_fetch)
  moreover have "stateCache (emit (callErrorHooks fns 0 err @ [Assign href]) w') = stateCache w"
    using assms(3) by (simp add: emit_def)
  ultimately show ?thesis using r by (simp del: append.simps append_assoc)
qed

lemma caught_miss:
  assumes "Fetch full \<in> set (trace w')"
    and "stateCache w' = stateCache w"
    and "r = Inr w' \<or> r = Inl (err, w')"
  shows "\<exists>w''.
     (case r of Inr v \<Rightarrow> v
      | Inl (e, v) \<Rightarrow> emit (callErrorHooks fns 0 e @ [Assign href]) v) = w'' \<and>
     Fetch full \<in> set (trace w'') \<and> stateCache w'' = stateCache w"
  using assms by (auto simp: emit_def)

lemma unmatched_hit:
  "map_of (stateCache w) full = Some entry \<Longrightarrow>
   \<exists>w' es. (unmatched H R full opts w = Inr w' \<or>
            unmatched H R full opts w = Inl (SecurityError, w')) \<and>
     trace w' = trace w @ [Patch (html entry), RunScripts] @ es \<and> (\<forall>u. Fetch u \<notin> set es) \<and>
     stateCache w' = stateCache w"
  by (cases "scrollTop opts") (simp_all add: unmatched_def effects Let_def)

lemma inert_hit:
  "options (m_route m) = no_options \<Longrightarrow> map_of (stateCache w) full = Some entry \<Longrightarrow>
   \<exists>w' es. (pipeline H R m full opts c w = Inr w' \<or>
            pipeline H R m full opts c w = Inl (SecurityError, w')) \<and>
     trace w' = trace w @ [Patch (html entry), RunScripts] @ es \<and> (\<forall>u. Fetch u \<notin> set es) \<and>
     stateCache w' = stateCache w"
  by (cases "scrollTop opts")
    (simp_all add: pipeline_def load_def produce_def no_options_def effects Let_def
      runAfterHooks_no_fetch)

lemma unmatched_miss_unstored:
  "\<not> cache R \<Longrightarrow> map_of (stateCache w) full = None \<Longrightarrow> fetch_page H full w = Inr page \<Longrightarrow>
   \<exists>w'. (unmatched H R full opts w = Inr w' \<or>
         unmatched H R full opts w = Inl (SecurityError, w')) \<and>
     Fetch full \<in> set (trace w') \<and> stateCache w' = stateCache w"
  by (cases "scrollTop opts") (simp_all add: unmatched_def effects Let_def)

lemma inert_miss_unstored:
  "\<not> cache R \<Longrightarrow> options (m_route m) = no_options \<Longrightarrow> map_of (stateCache w) full = None \<Longrightarrow>
   fetch_page H full (w\<lparr>loading := True\<rparr>) = Inr page \<Longrightarrow>
   \<exists>w'. (pipeline H R m full opts c w = Inr w' \<or>
         pipeline H R m full opts c w = Inl (SecurityError, w')) \<and>
     Fetch full \<in> set (trace w') \<and> stateCache w' = stateCache w"
  by (cases "scrollTop opts")
    (simp_all add: pipeline_def load_def produce_def no_options_def effects Let_def)

lemma init_stores:
  "map_of (stateCache (init H R w)) (location w) =
     Some \<lparr>html = (if container w then surface w else body w), title = doc_title w\<rparr>"
  by (simp add: init_def Let_def effects map_of_obj_set)

lemma hover_stores:
  assumes "prefetchOnHover R \<or> flagged"
    and "resolve H href (location w) = Some full"
    and "map_of (stateCache w) full = None"
    and "map_of (loaderCache w) full = None"
    and "matchRoute (routes R) (parse H full) = None \<or>
         map_option (\<lambda>m. options (m_route m)) (matchRoute (routes R) (parse H full)) = Some no_options"
    and "fetch H full = Response True doc"
  shows "map_of (stateCache (onHover H R (Some (flagged, Some href)) w)) full =
     Some \<lparr>html = fst (page_of H doc), title = snd (page_of H doc)\<rparr>"
  using assms
  by (auto simp: onHover_def no_options_def emit_def map_of_obj_set split: prod.splits option.splits)

text \<open>
  C10. With \<open>config.cache\<close> false, on both fetch paths of \<open>navigate\<close> (no route, or an
  inert route): an entry of the content cache is patched in with no fetch at all; without
  an entry the page is fetched and the cache is left as it was. \<open>init\<close> and the hover
  prefetch store their entry whatever the flag is.
\<close>

theorem cache_flag_gates_only_writes:
  assumes "\<not> cache R"
    and "resolve H href (location w) = Some full"
    and "full \<noteq> location w"
    and "container w"
    and "buildCtx H full = Some c"
    and "\<forall>f \<in> set (beforeEach R). f c = Continue"
    and "matchRoute (routes R) (parse H full) = None \<or>
         map_option (\<lambda>m. options (m_route m)) (matchRoute (routes R) (parse H full)) = Some no_options"
  shows "(map_of (stateCache w) full = Some entry \<longrightarrow>
       (\<exists>w' es. navigate (Suc n) H R href opts w = Some (Resolved w') \<and>
          trace w' = trace w @ map (\<lambda>j. BeforeHook j c) [0 ..< length (beforeEach R)] @
            [Patch (html entry), RunScripts] @ es \<and>
          (\<forall>u. Fetch u \<notin> set es) \<and> stateCache w' = stateCache w)) \<and>
     (map_of (stateCache w) full = None \<and> transport_error H full = None \<longrightarrow>
       (\<exists>w'. navigate (Suc n) H R href opts w = Some (Resolved w') \<and>
          Fetch full \<in> set (trace w') \<and> stateCache w' = stateCache w)) \<and>
     map_of (stateCache (init H R w)) (location w) =
       Some \<lparr>html = (if container w then surface w else body w), title = doc_title w\<rparr> \<and>
     (map_of (stateCache w) full = None \<and> map_of (loaderCache w) full = None \<and>
      prefetchOnHover R \<and> fetch H full = Response True doc \<longrightarrow>
        map_of (stateCache (onHover H R (Some (flagged, Some href)) w)) full =
          Some \<lparr>html = fst (page_of H doc), title = snd (page_of H doc)\<rparr>)"
proof -
  let ?evs = "map (\<lambda>j. BeforeHook j c) [0 ..< length (beforeEach R)]"
  have hooks: "runBeforeHooks R (beforeEach R) 0 c = (Proceed, ?evs)"
    using runBeforeHooks_pass [OF assms(6), of R 0] by simp
  have served: "\<exists>w' es. navigate (Suc n) H R href opts w = Some (Resolved w') \<and>
      trace w' = trace w @ ?evs @ [Patch (html entry), RunScripts] @ es \<and>
      (\<forall>u. Fetch u \<notin> set es) \<and> stateCache w' = stateCache w"
    if hit: "map_of (stateCache w) full = Some entry"
  proof -
    have hit': "map_of (stateCache (emit ?evs w)) full = Some entry"
      using hit by (simp add: emit_def)
    define r where "r = (case matchRoute (routes R) (parse H full) of
        Some m \<Rightarrow> pipeline H R m full opts c (emit ?evs w)
      | None \<Rightarrow> unmatched H R full opts (emit ?evs w))"
    have "\<exists>w' es. (r = Inr w' \<or> r = Inl (SecurityError, w')) \<and>
        trace w' = trace (emit ?evs w) @ [Patch (html entry), RunScripts] @ es \<and>
        (\<forall>u. Fetch u \<notin> set es) \<and> stateCache w' = stateCache (emit ?evs w)"
      using assms(7)
    proof
      assume "matchRoute (routes R) (parse H full) = None"
      then show ?thesis
        using unmatched_hit [OF hit', of H R opts] by (simp add: r_def)
    next
      assume "map_option (\<lambda>m. options (m_route m)) (matchRoute (routes R) (parse H full)) = Some no_options"
      then obtain m where m: "matchRoute (routes R) (parse H full) = Some m"
        and inert: "options (m_route m) = no_options"
        by auto
      show ?thesis
        using m inert_hit [OF inert hit', of H R opts c] by (simp add: r_def)
    qed
    then obtain w' es where r: "r = Inr w' \<or> r = Inl (SecurityError, w')"
      and tr: "trace w' = trace (emit ?evs w) @ [Patch (html entry), RunScripts] @ es"
      and nf: "\<forall>u. Fetch u \<notin> set es"
      and sc: "stateCache w' = stateCache (emit ?evs w)"
      by blast
    obtain w'' es' where
      "(case r of Inr v \<Rightarrow> v
        | Inl (e, v) \<Rightarrow> emit (callErrorHooks (onError R) 0 e @ [Assign href]) v) = w''"
      and "trace w'' = trace (emit ?evs w) @ [Patch (html entry), RunScripts] @ es'"
      and "\<forall>u. Fetch u \<notin> set es'"
      and "stateCache w'' = stateCache (emit ?evs w)"
      using caught_hit [OF tr nf sc r, of "onError R" href] by blast
    then show ?thesis
      using navigate_settles [OF assms(2-5) hooks r_def [symmetric], of n]
      by (simp add: emit_def)
  qed
  have unstored: "\<exists>w'. navigate (Suc n) H R href opts w = Some (Resolved w') \<and>
      Fetch full \<in> set (trace w') \<and> stateCache w' = stateCache w"
    if miss: "map_of (stateCache w) full = None" and ok: "transport_error H full = None"
  proof -
    have miss': "map_of (stateCache (emit ?evs w)) full = None"
      using miss by (simp add: emit_def)
    define r where "r = (case matchRoute (routes R) (parse H full) of
        Some m \<Rightarrow> pipeline H R m full opts c (emit ?evs w)
      | None \<Rightarrow> unmatched H R full opts (emit ?evs w))"
    have "\<exists>w'. (r = Inr w' \<or> r = Inl (SecurityError, w')) \<and>
        Fetch full \<in> set (trace w') \<and> stateCache w' = stateCache (emit ?evs w)"
      using assms(7)
    proof
      assume none: "matchRoute (routes R) (parse H full) = None"
      obtain page where "fetch_page H full (emit ?evs w) = Inr page"
        using fetch_page_ok [OF ok] by blast
      then show ?thesis
        using none unmatched_miss_unstored [OF assms(1) miss', of H page opts]
        by (simp add: r_def)
    next
      assume "map_option (\<lambda>m. options (m_route m)) (matchRoute (routes R) (parse H full)) = Some no_options"
      then obtain m where m: "matchRoute (routes R) (parse H full) = Some m"
        and inert: "options (m_route m) = no_options"
        by auto
      obtain page where "fetch_page H full ((emit ?evs w)\<lparr>loading := True\<rparr>) = Inr page"
        using fetch_page_ok [OF ok] by blast
      then show ?thesis
        using m inert_miss_unstored [OF assms(1) inert miss', of H page opts c]
        by (simp add: r_def)
    qed
    then obtain w' where r: "r = Inr w' \<or> r = Inl (SecurityError, w')"
      and tr: "Fetch full \<in> set (trace w')"
      and sc: "stateCache w' = stateCache (emit ?evs w)"
      by blast
    obtain w'' where
      "(case r of Inr v \<Rightarrow> v
        | Inl (e, v) \<Rightarrow> emit (callErrorHooks (onError R) 0 e @ [Assign href]) v) = w''"
      and "Fetch full \<in> set (trace w'')"
      and "stateCache w'' = stateCache (emit ?evs w)"
      using caught_miss [OF tr sc r, of "onError R" href] by blast
    then show ?thesis
      using navigate_settles [OF assms(2-5) hooks r_def [symmetric], of n]
      by (simp add: emit_def)
  qed
  have hover: "map_of (stateCache (onHover H R (Some (flagged, Some href)) w)) full =
      Some \<lparr>html = fst (page_of H doc), title = snd (page_of H doc)\<rparr>"
    if "map_of (stateCache w) full = None" "map_of (loaderCache w) full = None"
      "prefetchOnHover R" "fetch H full = Response True doc"
    using hover_stores [of R flagged H href w full doc] that assms(2,7) by blast
  show ?thesis
    using served unstored hover init_stores [of H R w] by blast
qed

lemmas demo = demo_host_def demo_world_def demo_router_def guarded_router_def uncached_router_def

lemma demo_ctx:
  "buildCtx demo_host (''http://app.test'' @ p) = Some \<lparr>c_path = p, c_query = [], c_full = ''http://app.test'' @ p\<rparr>"
  by (simp add: buildCtx_def demo_host_def parseQuery_def)

lemma demo_unmatched:
  "matchRoute [about_route] (parse demo_host ''http://app.test/down'') = None"
  "matchRoute [about_route] (parse demo_host ''http://app.test/y'') = None"
  "matchRoute [about_route] (parse demo_host ''http://app.test/'') = None"
  by (simp_all add: demo_host_def Option.is_none_def [symmetric]) code_simp+

theorem navigate_current_is_noop_witness:
  "navigate (Suc 0) demo_host demo_router ''/'' default_options demo_world = Some (Resolved demo_world)"
proof -
  have "resolve demo_host ''/'' (location demo_world) = Some (location demo_world)"
    by (simp add: demo)
  then show ?thesis by (rule navigate_current_is_noop)
qed

theorem popstate_without_snapshot_is_noop_witness:
  "onPopState (Suc 0) demo_host demo_router None demo_world = Some (Resolved demo_world)"
proof -
  have "container demo_world"
    and "resolve demo_host (location demo_world) (location demo_world) = Some (location demo_world)"
    by (simp_all add: demo)
  then show ?thesis
    using popstate_without_snapshot_is_noop [of demo_world None demo_host 0 demo_router] by simp
qed

theorem before_hook_false_aborts_witness:
  "navigate (Suc 0) demo_host guarded_router ''/about'' default_options demo_world =
     Some (Resolved (demo_world\<lparr>trace :=
       [BeforeHook 0 \<lparr>c_path = ''/about'', c_query = [], c_full = ''http://app.test/about''\<rparr>,
        BeforeHook 1 \<lparr>c_path = ''/about'', c_query = [], c_full = ''http://app.test/about''\<rparr>]\<rparr>))"
proof -
  let ?c = "\<lparr>c_path = ''/about'', c_query = [], c_full = ''http://app.test/about''\<rparr>"
  have 1: "resolve demo_host ''/about'' (location demo_world) = Some ''http://app.test/about''"
    and 2: "''http://app.test/about'' \<noteq> location demo_world"
    and 3: "container demo_world"
    and 5: "beforeEach guarded_router = [\<lambda>c. Continue] @ (\<lambda>c. Abort) # [\<lambda>c. Continue]"
    and 6: "\<forall>f \<in> set [\<lambda>c. Continue]. f ?c = Continue"
    and 7: "(\<lambda>c. Abort) ?c = Abort"
    by (simp_all add: demo)
  have 4: "buildCtx demo_host ''http://app.test/about'' = Some ?c"
    using demo_ctx [of "''/about''"] by simp
  show ?thesis
    using before_hook_false_aborts [OF 1 2 3 4 5 6 7, of 0 default_options]
    by (simp add: emit_def demo_world_def upt_rec)
qed

theorem transport_failure_calls_error_hooks_once_witness:
  "\<exists>w'. navigate (Suc 0) demo_host demo_router ''/down'' default_options demo_world = Some (Resolved w') \<and>
     trace w' =
       [BeforeHook 0 \<lparr>c_path = ''/down'', c_query = [], c_full = ''http://app.test/down''\<rparr>,
        Fetch ''http://app.test/down'', ErrorHook 0 (Thrown ''offline''),
        ErrorHook 1 (Thrown ''offline''), Assign ''/down''] \<and>
     location w' = ''http://app.test/'' \<and> surface w' = ''<p>home</p>'' \<and> stateCache w' = []"
proof -
  let ?c = "\<lparr>c_path = ''/down'', c_query = [], c_full = ''http://app.test/down''\<rparr>"
  have 1: "resolve demo_host ''/down'' (location demo_world) = Some ''http://app.test/down''"
    and 2: "''http://app.test/down'' \<noteq> location demo_world"
    and 3: "container demo_world"
    and 5: "\<forall>f \<in> set (beforeEach demo_router). f ?c = Continue"
    and 7: "map_of (stateCache demo_world) ''http://app.test/down'' = None"
    and 8: "transport_error demo_host ''http://app.test/down'' = Some (Thrown ''offline'')"
    by (simp_all add: demo transport_error_def)
  have 4: "buildCtx demo_host ''http://app.test/down'' = Some ?c"
    using demo_ctx [of "''/down''"] by simp
  have 6: "matchRoute (routes demo_router) (parse demo_host ''http://app.test/down'') = None \<or>
      map_option (\<lambda>m. options (m_route m))
        (matchRoute (routes demo_router) (parse demo_host ''http://app.test/down'')) = Some no_options"
    by (simp add: demo_router_def demo_unmatched)
  show ?thesis
    using transport_failure_calls_error_hooks_once [OF 1 2 3 4 5 6 7 8, of 0 default_options]
    by (simp add: demo_world_def demo_router_def upt_rec)
qed

lemma revisit_world_eq:
  "revisit_world =
     \<lparr>location = ''http://app.test/x'', doc_title = ''Home'', container = True,
      surface = ''<p>home</p>'', body = ''<div id=app><p>home</p></div>'', loading = False,
      stateCache = [(''http://app.test/'', \<lparr>html = ''<p>home</p>'', title = ''Home''\<rparr>)],
      loaderCache = [],
      trace = [ReplaceState \<lparr>s_html = ''<p>home</p>'', s_title = ''Home'', s_url = ''http://app.test/''\<rparr>,
               UpdateActiveLinks]\<rparr>"
  by (simp add: revisit_world_def init_def demo effects Let_def)

theorem cache_flag_gates_only_writes_witness:
  "(\<exists>w' es. navigate (Suc 0) demo_host uncached_router ''/'' default_options revisit_world =
        Some (Resolved w') \<and>
      trace w' = trace revisit_world @
        [BeforeHook 0 \<lparr>c_path = ''/'', c_query = [], c_full = ''http://app.test/''\<rparr>,
         Patch ''<p>home</p>'', RunScripts] @ es \<and>
      (\<forall>u. Fetch u \<notin> set es) \<and> stateCache w' = stateCache revisit_world) \<and>
   (\<exists>w'. navigate (Suc 0) demo_host uncached_router ''/y'' default_options demo_world =
        Some (Resolved w') \<and>
      Fetch ''http://app.test/y'' \<in> set (trace w') \<and> stateCache w' = []) \<and>
   map_of (stateCache (init demo_host uncached_router demo_world)) ''http://app.test/'' =
     Some \<lparr>html = ''<p>home</p>'', title = ''Home''\<rparr> \<and>
   map_of (stateCache (onHover demo_host uncached_router (Some (False, Some ''/y'')) demo_world))
       ''http://app.test/y'' =
     Some \<lparr>html = ''<p>fetched</p>'', title = []\<rparr>"
proof -
  let ?home = "\<lparr>c_path = ''/'', c_query = [], c_full = ''http://app.test/''\<rparr>"
  let ?y = "\<lparr>c_path = ''/y'', c_query = [], c_full = ''http://app.test/y''\<rparr>"
  have off: "\<not> cache uncached_router"
    by (simp add: demo)
  have a: "resolve demo_host ''/'' (location revisit_world) = Some ''http://app.test/''"
    "''http://app.test/'' \<noteq> location revisit_world"
    "container revisit_world"
    "\<forall>f \<in> set (beforeEach uncached_router). f ?home = Continue"
    "map_of (stateCache revisit_world) ''http://app.test/'' = Some \<lparr>html = ''<p>home</p>'', title = ''Home''\<rparr>"
    by (simp_all add: revisit_world_eq demo)
  have a4: "buildCtx demo_host ''http://app.test/'' = Some ?home"
    using demo_ctx [of "''/''"] by simp
  have a6: "matchRoute (routes uncached_router) (parse demo_host ''http://app.test/'') = None \<or>
      map_option (\<lambda>m. options (m_route m))
        (matchRoute (routes uncached_router) (parse demo_host ''http://app.test/'')) = Some no_options"
    by (simp add: demo_router_def uncached_router_def demo_unmatched)
  have b: "resolve demo_host ''/y'' (location demo_world) = Some ''http://app.test/y''"
    "''http://app.test/y'' \<noteq> location demo_world"
    "container demo_world"
    "\<forall>f \<in> set (beforeEach uncached_router). f ?y = Continue"
    "map_of (stateCache demo_world) ''http://app.test/y'' = None"
    "map_of (loaderCache demo_world) ''http://app.test/y'' = None"
    "transport_error demo_host ''http://app.test/y'' = None"
    "prefetchOnHover uncached_router"
    "fetch demo_host ''http://app.test/y'' = Response True ''<p>fetched</p>''"
    by (simp_all add: demo transport_error_def)
  have b4: "buildCtx demo_host ''http://app.test/y'' = Some ?y"
    using demo_ctx [of "''/y''"] by simp
  have b6: "matchRoute (routes uncached_router) (parse demo_host ''http://app.test/y'') = None \<or>
      map_option (\<lambda>m. options (m_route m))
        (matchRoute (routes uncached_router) (parse demo_host ''http://app.test/y'')) = Some no_options"
    by (simp add: demo_router_def uncached_router_def demo_unmatched)
  have served: "\<exists>w' es. navigate (Suc 0) demo_host uncached_router ''/'' default_options revisit_world =
        Some (Resolved w') \<and>
      trace w' = trace revisit_world @ [BeforeHook 0 ?home, Patch ''<p>home</p>'', RunScripts] @ es \<and>
      (\<forall>u. Fetch u \<notin> set es) \<and> stateCache w' = stateCache revisit_world"
    using cache_flag_gates_only_writes [OF off a(1-3) a4 a(4) a6,
        where entry = "\<lparr>html = ''<p>home</p>'', title = ''Home''\<rparr>" and n = 0
          and opts = default_options and flagged = False and doc = "[]"] a(5)
    by (simp add: demo upt_rec)
  have rest: "(\<exists>w'. navigate (Suc 0) demo_host uncached_router ''/y'' default_options demo_world =
        Some (Resolved w') \<and>
      Fetch ''http://app.test/y'' \<in> set (trace w') \<and> stateCache w' = []) \<and>
    map_of (stateCache (init demo_host uncached_router demo_world)) ''http://app.test/'' =
      Some \<lparr>html = ''<p>home</p>'', title = ''Home''\<rparr> \<and>
    map_of (stateCache (onHover demo_host uncached_router (Some (False, Some ''/y'')) demo_world))
        ''http://app.test/y'' =
      Some \<lparr>html = ''<p>fetched</p>'', title = []\<rparr>"
    using cache_flag_gates_only_writes [OF off b(1-3) b4 b(4) b6,
        where entry = "\<lparr>html = [], title = []\<rparr>" and n = 0 and opts = default_options
          and flagged = False and doc = "''<p>fetched</p>''"] b(5-9)
    by (simp add: demo)
  from served rest show ?thesis by blast
qed

lemma quiet_iff:
  "quiet w w' \<longleftrightarrow> (\<exists>es. trace w' = trace w @ es \<and> (\<forall>j x. BeforeHook j x \<notin> set es))"
proof
  assume q: "quiet w w'"
  have "trace w' = trace w @ drop (length (trace w)) (trace w')"
    using q append_take_drop_id [of "length (trace w)" "trace w'"] by (simp add: quiet_def)
  moreover have "\<forall>j x. BeforeHook j x \<notin> set (drop (length (trace w)) (trace w'))"
    using q by (auto simp: quiet_def list_ex_iff before_hook_def)
  ultimately show "\<exists>es. trace w' = trace w @ es \<and> (\<forall>j x. BeforeHook j x \<notin> set es)"
    by blast
next
  assume "\<exists>es. trace w' = trace w @ es \<and> (\<forall>j x. BeforeHook j x \<notin> set es)"
  then show "quiet w w'"
    by (auto simp: quiet_def list_ex_iff before_hook_def split: event.splits)
qed

lemma quiet_refl: "quiet w w"
  by (simp add: quiet_iff)

lemma quiet_trans: "quiet a b \<Longrightarrow> quiet b c \<Longrightarrow> quiet a c"
  by (auto simp: quiet_iff)

lemma quiet_emit: "\<forall>j x. BeforeHook j x \<notin> set evs \<Longrightarrow> quiet w w' \<Longrightarrow> quiet w (emit evs w')"
  by (auto simp: quiet_iff emit_def)

lemma quiet_update [simp]:
  "quiet w (w'\<lparr>loading := b\<rparr>) = quiet w w'"
  "quiet w (w'\<lparr>doc_title := t\<rparr>) = quiet w w'"
  "quiet w (w'\<lparr>surface := s\<rparr>) = quiet w w'"
  "quiet w (w'\<lparr>location := l\<rparr>) = quiet w w'"
  "quiet w (w'\<lparr>stateCache := sc\<rparr>) = quiet w w'"
  "quiet w (w'\<lparr>loaderCache := lc\<rparr>) = quiet w w'"
  by (simp_all add: quiet_iff)

lemma runAfterHooks_no_before: "BeforeHook j x \<notin> set (runAfterHooks R fns i c)"
  by (induction fns arbitrary: i) (auto simp: callErrorHooks_eq split: outcome.splits)

lemma quiet_steps:
  "quiet w w' \<Longrightarrow> quiet w (patch H m w')"
  "quiet w w' \<Longrightarrow> quiet w (run_scripts H w')"
  "quiet w w' \<Longrightarrow> quiet w (updateActiveLinks H w')"
  "quiet w w' \<Longrightarrow> quiet w (scroll y w')"
  "quiet w w' \<Longrightarrow> quiet w (store R full entry w')"
  by (auto simp: patch_def run_scripts_def updateActiveLinks_def scroll_def store_def
      intro!: quiet_emit split: option.splits)

lemma unmatched_quiet:
  "quiet w0 w \<Longrightarrow> case unmatched H R full opts w of Inl (e, w') \<Rightarrow> quiet w0 w' | Inr w' \<Rightarrow> quiet w0 w'"
  by (auto simp: unmatched_def commit_def Let_def intro!: quiet_steps quiet_emit
      split: option.splits sum.splits)

lemma load_quiet:
  "quiet w0 w \<Longrightarrow> case load m full w of Inl (e, w') \<Rightarrow> quiet w0 w' | Inr (d, w') \<Rightarrow> quiet w0 w'"
  by (auto simp: load_def Let_def intro!: quiet_emit split: option.splits outcome.splits)

lemma produce_quiet:
  "quiet w0 w \<Longrightarrow> case produce H R m full d w of Inl (e, w') \<Rightarrow> quiet w0 w' | Inr w' \<Rightarrow> quiet w0 w'"
  by (auto simp: produce_def Let_def intro!: quiet_steps quiet_emit
      split: option.splits outcome.splits sum.splits)

lemma pipeline_quiet:
  assumes "quiet w0 w"
  shows "case pipeline H R m full opts c w of Inl (e, w') \<Rightarrow> quiet w0 w' | Inr w' \<Rightarrow> quiet w0 w'"
proof -
  have 0: "quiet w0 (w\<lparr>loading := True\<rparr>)" using assms by simp
  show ?thesis
  proof (cases "load m full (w\<lparr>loading := True\<rparr>)")
    case (Inl a)
    with load_quiet [OF 0, of m full] show ?thesis
      by (auto simp: pipeline_def)
  next
    case (Inr b)
    obtain d w1 where b: "b = (d, w1)" by (cases b)
    with Inr load_quiet [OF 0, of m full] have 1: "quiet w0 w1" by simp
    show ?thesis
    proof (cases "produce H R m full d w1")
      case (Inl a)
      with produce_quiet [OF 1, of H R m full d] Inr b show ?thesis
        by (auto simp: pipeline_def)
    next
      case (Inr w2)
      with produce_quiet [OF 1, of H R m full d] have "quiet w0 w2" by simp
      then show ?thesis
        using Inr \<open>load m full (w\<lparr>loading := True\<rparr>) = Inr b\<close> b
        by (auto simp: pipeline_def commit_def Let_def runAfterHooks_no_before
            intro!: quiet_emit quiet_steps)
    qed
  qed
qed

lemma navigate_after_hooks:
  assumes "resolve H href (location w) = Some full"
    and "full \<noteq> location w"
    and "container w"
    and "buildCtx H full = Some c"
    and "\<forall>f \<in> set (beforeEach R). f c = Continue"
  shows "\<exists>w'. navigate (Suc n) H R href opts w = Some (Resolved w') \<and>
     quiet (emit (map (\<lambda>j. BeforeHook j c) [0 ..< length (beforeEach R)]) w) w'"
proof -
  let ?w = "emit (map (\<lambda>j. BeforeHook j c) [0 ..< length (beforeEach R)]) w"
  have hooks: "runBeforeHooks R (beforeEach R) 0 c =
      (Proceed, map (\<lambda>j. BeforeHook j c) [0 ..< length (beforeEach R)])"
    using runBeforeHooks_pass [OF assms(5), of R 0] by simp
  have q: "quiet ?w ?w" by (rule quiet_refl)
  show ?thesis
  proof (cases "matchRoute (routes R) (parse H full)")
    case None
    with unmatched_quiet [OF q, of H R full opts] assms(1-4) hooks show ?thesis
      by (auto simp: callErrorHooks_eq intro!: quiet_emit split: sum.splits)
  next
    case (Some m)
    with pipeline_quiet [OF q, of H R m full opts c] assms(1-4) hooks show ?thesis
      by (auto simp: callErrorHooks_eq intro!: quiet_emit split: sum.splits)
  qed
qed

text \<open>
  C8 (fails on the code). A plain click on a local link to a new URL, with hooks that
  let the navigation pass: the click listener runs the \<open>beforeEach\<close> hooks and then
  calls \<open>navigate\<close>, which runs them again. Each hook is called twice before the route is
  resolved, and not again.
\<close>

theorem click_runs_before_hooks_twice:
  assumes "\<not> defaultPrevented e"
    and "link e = Some href"
    and "plain e"
    and "matchesLocal H href w"
    and "resolve H href (location w) = Some full"
    and "full \<noteq> location w"
    and "container w"
    and "buildCtx H full = Some c"
    and "\<forall>f \<in> set (beforeEach R). f c = Continue"
  shows "\<exists>w' es. onClick (Suc n) H R e w = Some (Resolved w') \<and>
     trace w' = trace w @ [PreventDefault] @
       map (\<lambda>j. BeforeHook j c) [0 ..< length (beforeEach R)] @
       map (\<lambda>j. BeforeHook j c) [0 ..< length (beforeEach R)] @ es \<and>
     (\<forall>j x. BeforeHook j x \<notin> set es)"
proof -
  let ?evs = "map (\<lambda>j. BeforeHook j c) [0 ..< length (beforeEach R)]"
  let ?w = "emit (PreventDefault # ?evs) w"
  have hooks: "runBeforeHooks R (beforeEach R) 0 c = (Proceed, ?evs)"
    using runBeforeHooks_pass [OF assms(9), of R 0] by simp
  have click: "onClick (Suc n) H R e w = navigate (Suc n) H R href default_options ?w"
    using assms(1-5,8) hooks by (simp add: onClick_def)
  have "resolve H href (location ?w) = Some full" "full \<noteq> location ?w" "container ?w"
    using assms(5-7) by (simp_all add: emit_def)
  from navigate_after_hooks [OF this assms(8,9), of n default_options]
  obtain w' where "navigate (Suc n) H R href default_options ?w = Some (Resolved w')"
    and "quiet (emit ?evs ?w) w'"
    by blast
  then show ?thesis
    using click by (auto simp: quiet_iff emit_def)
qed

theorem click_runs_before_hooks_twice_witness:
  "\<exists>w' es. onClick (Suc 0) demo_host demo_router
        \<lparr>defaultPrevented = False, link = Some ''/x'', plain = True\<rparr> demo_world = Some (Resolved w') \<and>
     trace w' =
       [PreventDefault,
        BeforeHook 0 \<lparr>c_path = ''/x'', c_query = [], c_full = ''http://app.test/x''\<rparr>,
        BeforeHook 0 \<lparr>c_path = ''/x'', c_query = [], c_full = ''http://app.test/x''\<rparr>] @ es \<and>
     (\<forall>j x. BeforeHook j x \<notin> set es)"
proof -
  let ?e = "\<lparr>defaultPrevented = False, link = Some ''/x'', plain = True\<rparr>"
  let ?c = "\<lparr>c_path = ''/x'', c_query = [], c_full = ''http://app.test/x''\<rparr>"
  have h: "\<not> defaultPrevented ?e" "link ?e = Some ''/x''" "plain ?e"
    "matchesLocal demo_host ''/x'' demo_world"
    "resolve demo_host ''/x'' (location demo_world) = Some ''http://app.test/x''"
    "''http://app.test/x'' \<noteq> location demo_world"
    "container demo_world"
    by (simp_all add: demo matchesLocal_def)
  have c: "buildCtx demo_host ''http://app.test/x'' = Some ?c"
    using demo_ctx [of "''/x''"] by simp
  have p: "\<forall>f \<in> set (beforeEach demo_router). f ?c = Continue"
    by (simp add: demo)
  show ?thesis
    using click_runs_before_hooks_twice [OF h c p, of 0]
    by (simp add: demo_world_def demo_router_def upt_rec)
qed

text \<open>The whole effect of such a click on the small site.\<close>

lemma click_example:
  "onClick (Suc 0) demo_host demo_router
       \<lparr>defaultPrevented = False, link = Some ''/x'', plain = True\<rparr> demo_world =
     Some (Resolved
       \<lparr>location = ''http://app.test/x'', doc_title = ''Home'', container = True,
        surface = ''<p>fetched</p>'', body = ''<div id=app><p>home</p></div>'', loading = False,
        stateCache = [(''http://app.test/x'', \<lparr>html = ''<p>fetched</p>'', title = ''Home''\<rparr>)],
        loaderCache = [],
        trace =
          [PreventDefault,
           BeforeHook 0 \<lparr>c_path = ''/x'', c_query = [], c_full = ''http://app.test/x''\<rparr>,
           BeforeHook 0 \<lparr>c_path = ''/x'', c_query = [], c_full = ''http://app.test/x''\<rparr>,
           Fetch ''http://app.test/x'', Patch ''<p>fetched</p>'', RunScripts,
           PushState \<lparr>s_html = ''<p>fetched</p>'', s_title = ''Home'', s_url = ''http://app.test/x''\<rparr>,
           UpdateActiveLinks, ScrollTo 0]\<rparr>)"
  by code_simp

section \<open>Properties of the tree reconciler\<close>

lemma keyedOld_single:
  "keyedOld [(0, old)] = (case key_of old of None \<Rightarrow> (\<lambda>k. None) | Some k \<Rightarrow> [k \<mapsto> 0])"
  by (simp add: keyedOld_def split: option.splits)

text \<open>
  Where \<open>_updateChildren\<close> hands a child to \<open>_patchNode\<close>, the mark on either side keeps
  the old element as it is.
\<close>

lemma only_child_preserved:
  assumes "old = Element t attrs cs" and "new = Element t' attrs' cs'"
    and "hasAttribute old ''data-preserve'' \<or> hasAttribute new ''data-preserve''"
    and "isSameNode old new"
  shows "updateChildren U [old] [new] = Inr ([old], [])"
proof -
  have p: "patchNode U old new = Inr (Kept old [])"
    using assms(1-3) by (auto simp: patchNode.simps preserved_def)
  have fr: "start [old] = \<lparr>kids = [(0, old)], gone = [], idx = 0, fresh = 1, activated = []\<rparr>"
    by (simp add: start_def)
  show ?thesis
  proof (cases "key_of new")
    case None
    then have "plan_for U (keyedOld [(0, old)]) new (start [old]) = Paired 0 old (start [old])"
      using assms(2,4) by (simp add: plan_for_def keyed_match_def fr oldChild_def)
    then show ?thesis
      using p by (simp add: updateChildren_def fr settle_def advance_def)
  next
    case (Some k)
    then have "key_of old = Some k"
      using assms(1,2,4) by (auto split: if_splits)
    then have "plan_for U (keyedOld [(0, old)]) new (start [old]) = Keyed 0 old (start [old])"
      using assms(2) Some by (simp add: plan_for_def keyed_match_def fr oldChild_def keyedOld_single)
    then show ?thesis
      using p by (simp add: updateChildren_def fr settle_def advance_def oldChild_def)
  qed
qed

lemma start_single:
  "start [old] = \<lparr>kids = [(0, old)], gone = [], idx = 0, fresh = 1, activated = []\<rparr>"
  by (simp add: start_def)

lemma keyed_match_other:
  assumes "key_of new = None \<or> key_of new \<noteq> key_of old"
  shows "keyed_match (keyedOld [(0, old)]) new fr = None"
  using assms by (auto simp: keyed_match_def keyedOld_single split: node.splits option.splits)

lemma isSameNode_clone:
  "isSameNode old (fst (execScriptsInNode U new)) = isSameNode old new"
  by (cases old; cases new)
    (auto simp: execScriptsInNode_def key_of_def getAttribute_def split: prod.splits)

lemma isSameNode_refl: "isSameNode (Element t attrs cs) (Element t attrs cs)"
  by (cases "key_of (Element t attrs cs)") simp_all

text \<open>
  C9 (fails on the code). \<open>_patchNode\<close> returns at once for an old element marked
  \<open>data-preserve\<close>, whatever the new node is, and so never replaces it. \<open>_updateChildren\<close>
  does not look at the mark where it works on a child itself. When the new child in the
  place of a preserved only child is not the same node, and has no key or another one,
  the preserved element is replaced by a clone of the new child. When the new parent has
  no children, every old child is removed, a preserved one among them.
\<close>

theorem updateChildren_ignores_preserve:
  assumes "old = Element t attrs cs"
    and "hasAttribute old ''data-preserve''"
    and "\<not> isSameNode old new"
    and "key_of new = None \<or> key_of new \<noteq> key_of old"
  shows "patchNode U old new = Inr (Kept old []) \<and>
     updateChildren U [old] [new] =
       Inr ([fst (execScriptsInNode U new)], snd (execScriptsInNode U new)) \<and>
     fst (execScriptsInNode U new) \<noteq> old \<and>
     updateChildren U (pre @ old # post) [] = Inr ([], [])"
proof -
  have kept: "patchNode U old new = Inr (Kept old [])"
    using assms(1,2) by (simp add: patchNode.simps preserved_def)
  have "plan_for U (keyedOld [(0, old)]) new (start [old]) =
      Cloned \<lparr>kids = [(1, fst (execScriptsInNode U new))], gone = [(0, old)], idx = 1,
        fresh = 2, activated = snd (execScriptsInNode U new)\<rparr>"
    using assms(3) keyed_match_other [OF assms(4)]
    by (simp add: plan_for_def start_single oldChild_def split: prod.splits)
  then have replaced: "updateChildren U [old] [new] =
      Inr ([fst (execScriptsInNode U new)], snd (execScriptsInNode U new))"
    by (simp add: updateChildren_def start_single)
  have other: "fst (execScriptsInNode U new) \<noteq> old"
  proof
    assume "fst (execScriptsInNode U new) = old"
    then have "isSameNode old new = isSameNode old old"
      using isSameNode_clone [of old U new] by simp
    then show False
      using assms(1,3) isSameNode_refl [of t attrs cs] by simp
  qed
  have removed: "updateChildren U (pre @ old # post) [] = Inr ([], [])"
    by (simp add: updateChildren_def start_def)
  show ?thesis
    using kept replaced other removed by simp
qed

theorem updateChildren_ignores_preserve_witness:
  "hasAttribute (Element ''div'' [(''data-preserve'', [])] [Text ''w'']) ''data-preserve'' \<and>
   patchNode (\<lambda>u. u) (Element ''div'' [(''data-preserve'', [])] [Text ''w'']) (Element ''p'' [] []) =
     Inr (Kept (Element ''div'' [(''data-preserve'', [])] [Text ''w'']) []) \<and>
   updateChildren (\<lambda>u. u) [Element ''div'' [(''data-preserve'', [])] [Text ''w'']] [Element ''p'' [] []] =
     Inr ([Element ''p'' [] []], []) \<and>
   updateChildren (\<lambda>u. u) [Element ''div'' [(''data-preserve'', [])] [Text ''w'']] [] = Inr ([], [])"
proof -
  let ?old = "Element ''div'' [(''data-preserve'', [])] [Text ''w'']"
  let ?new = "Element ''p'' [] []"
  have marked: "hasAttribute ?old ''data-preserve''"
    by (simp add: hasAttribute_def getAttribute_def)
  have differ: "\<not> isSameNode ?old ?new"
    by simp
  have unkeyed: "key_of ?new = None \<or> key_of ?new \<noteq> key_of ?old"
    by (simp add: key_of_def getAttribute_def)
  have "execScriptsInNode (\<lambda>u. u) ?new = (?new, [])"
    by (simp add: execScriptsInNode_def)
  then show ?thesis
    using updateChildren_ignores_preserve [OF refl marked differ unkeyed, of "\<lambda>u. u" "[]" "[]"] marked
    by simp
qed

text \<open>
  C4 (fails on the code). An inline script is patched into an empty container and run,
  which marks it. Patching the same markup again pairs the live script with the new one,
  and \<open>_updateAttributes\<close> removes the mark, which the markup does not have; so
  \<open>_runScripts\<close> runs the script a second time.
\<close>

theorem script_runs_again_after_repatch:
  assumes "stmt \<noteq> []"
  shows "patch_and_run U [] [Element ''script'' [] [Text stmt]] =
       Inr ([Element ''script'' [(''data-router-executed'', ''1'')] [Text stmt]],
            [Element ''script'' [(''data-router-executed'', ''1'')] [Text stmt]]) \<and>
     updateChildren U [Element ''script'' [(''data-router-executed'', ''1'')] [Text stmt]]
         [Element ''script'' [] [Text stmt]] =
       Inr ([Element ''script'' [] [Text stmt]], []) \<and>
     patch_and_run U [Element ''script'' [(''data-router-executed'', ''1'')] [Text stmt]]
         [Element ''script'' [] [Text stmt]] =
       Inr ([Element ''script'' [(''data-router-executed'', ''1'')] [Text stmt]],
            [Element ''script'' [(''data-router-executed'', ''1'')] [Text stmt]])"
  using assms
  by (simp add: patch_and_run_def updateChildren_def start_def keyedOld_def plan_for_def
      keyed_match_def key_of_def getAttribute_def oldChild_def execScriptsInNode_def
      runScripts_def executed_def recreate_def patchNode.simps preserved_def hasAttribute_def
      both_text_def must_replace_def settle_def advance_def updateAttributes_def)

theorem script_runs_again_after_repatch_witness:
  "patch_and_run (\<lambda>u. u) [] [Element ''script'' [] [Text ''hit()'']] =
     Inr ([Element ''script'' [(''data-router-executed'', ''1'')] [Text ''hit()'']],
          [Element ''script'' [(''data-router-executed'', ''1'')] [Text ''hit()'']]) \<and>
   patch_and_run (\<lambda>u. u) [Element ''script'' [(''data-router-executed'', ''1'')] [Text ''hit()'']]
       [Element ''script'' [] [Text ''hit()'']] =
     Inr ([Element ''script'' [(''data-router-executed'', ''1'')] [Text ''hit()'']],
          [Element ''script'' [(''data-router-executed'', ''1'')] [Text ''hit()'']])"
proof -
  have "''hit()'' \<noteq> []" by simp
  from script_runs_again_after_repatch [OF this, of "\<lambda>u. u"] show ?thesis by blast
qed

end
